theory Spec2Isabelle
  imports
    Main
    "HOL-Library.Product_Lexorder"
    "HOL-Library.List_Lexorder"
    "HOL-Library.Char_ord"
    "HOL-Library.Multiset"
begin

section \<open>Metadata resolution of aqt (\<^verbatim>\<open>src/aqt/metadata.py\<close>)\<close>

text \<open>
  A shallow embedding of the functions of \<^verbatim>\<open>aqt/metadata.py\<close> that decode folder names,
  build repository paths, fetch with a fallback mirror, read directory listings and
  manifests, and select versions.  Python strings are modelled as \<^typ>\<open>string\<close> over
  ASCII: a character outside ASCII is neither a digit nor white space here.  Every
  exception of the source is a value of the type \<open>exn\<close>; a function that can raise
  returns \<open>exn + 'a\<close> with the exception on the left.
\<close>

subsection \<open>Exceptions\<close>

text \<open>\<open>CliInputError_not_located not_found\<close> is the \<^verbatim>\<open>CliInputError\<close> that
  \<^verbatim>\<open>fetch_archives\<close> raises, whose message formats the list \<^verbatim>\<open>not_found\<close>: "The requested
  modules were not located: " followed by the list.\<close>

datatype exn =
    ArchiveDownloadError string
  | ArchiveConnectionError string
  | ArchiveListError string
  | CliInputError string
  | CliInputError_not_located "string list"
  | AttributeError
  | IndexError
  | KeyError
  | ValueError
  | AssertionError

subsection \<open>Python string primitives\<close>

text \<open>\<^verbatim>\<open>ch.isdigit()\<close> on ASCII.\<close>

definition isdigit :: "char \<Rightarrow> bool" where
  "isdigit ch \<longleftrightarrow> CHR ''0'' \<le> ch \<and> ch \<le> CHR ''9''"

text \<open>The white space that \<^verbatim>\<open>int()\<close> skips at the two ends of an ASCII string: tab, line
  feed, vertical tab, form feed, carriage return and the space.  The four separators
  \<^verbatim>\<open>\x1c\<close> to \<^verbatim>\<open>\x1f\<close> are not skipped: with one of them \<^verbatim>\<open>int()\<close> raises \<^verbatim>\<open>ValueError\<close>.\<close>

definition isspace :: "char \<Rightarrow> bool" where
  "isspace ch \<longleftrightarrow> (of_char ch :: nat) \<in> {9, 10, 11, 12, 13, 32}"

text \<open>The string between the white space that \<^verbatim>\<open>int()\<close> skips.\<close>

definition strip :: "string \<Rightarrow> string" where
  "strip s = rev (dropWhile isspace (rev (dropWhile isspace s)))"

text \<open>The default of \<^verbatim>\<open>sys.get_int_max_str_digits()\<close>: \<^verbatim>\<open>int()\<close> raises \<^verbatim>\<open>ValueError\<close> on a
  decimal literal with more digits than that.\<close>

definition int_max_str_digits :: nat where
  "int_max_str_digits = 4300"

definition digit_val :: "char \<Rightarrow> nat" where
  "digit_val ch = of_char ch - 48"

definition digit_char :: "nat \<Rightarrow> char" where
  "digit_char d = char_of (48 + d)"

text \<open>The value of a string of decimal digits, most significant digit first.\<close>

definition digits_val :: "string \<Rightarrow> nat" where
  "digits_val ds = foldl (\<lambda>a ch. 10 * a + digit_val ch) 0 ds"

text \<open>\<^verbatim>\<open>s.split(sep)\<close> for a separator of one character: the pieces between the
  occurrences of the separator, in order; never the empty list.\<close>

fun split_chr :: "char \<Rightarrow> string \<Rightarrow> string list" where
  "split_chr sep [] = [[]]"
| "split_chr sep (ch # s) =
     (let r = split_chr sep s
      in if ch = sep then [] # r else (ch # hd r) # tl r)"

text \<open>\<^verbatim>\<open>int(s)\<close> in base ten; \<open>None\<close> is the \<^verbatim>\<open>ValueError\<close>.  White space around the
  number is skipped, one sign is accepted, the digits may be grouped by single
  underscores between digits, and the digits, leading zeros included, may not be more
  than \<open>int_max_str_digits\<close>.\<close>

definition py_int :: "string \<Rightarrow> int option" where
  "py_int s =
     (let t = strip s;
          neg = (t \<noteq> [] \<and> hd t = CHR ''-'');
          body = (if t \<noteq> [] \<and> (hd t = CHR ''-'' \<or> hd t = CHR ''+'') then tl t else t);
          groups = split_chr CHR ''_'' body
      in if (\<forall>g \<in> set groups. g \<noteq> [] \<and> (\<forall>ch \<in> set g. isdigit ch)) \<and>
            length (concat groups) \<le> int_max_str_digits
         then Some (if neg then - int (digits_val (concat groups))
                    else int (digits_val (concat groups)))
         else None)"

text \<open>\<^verbatim>\<open>str(n)\<close> for a natural number: its decimal digits.\<close>

function str_nat :: "nat \<Rightarrow> string" where
  "str_nat n = (if n < 10 then [digit_char n] else str_nat (n div 10) @ [digit_char (n mod 10)])"
  by pat_completeness auto
termination
  by (relation "measure id") auto

declare str_nat.simps [simp del]

subsection \<open>Versions\<close>

text \<open>Modelled from the spec: the class \<^verbatim>\<open>Version\<close> of \<^verbatim>\<open>aqt.repository\<close>, which is not
  among the sources.  A version has a major, a minor and a patch number and an optional
  prerelease tag; versions are totally ordered by major, minor and patch, and a version
  without a prerelease tag is above the same version with one.  Two prereleases of the
  same numbers are ordered by their tags.\<close>

datatype version = Version (major: nat) (minor: nat) (patch: nat) (prerelease: "string option")

fun version_key :: "version \<Rightarrow> nat \<times> nat \<times> nat \<times> bool \<times> string" where
  "version_key (Version a b c p) = (a, b, c, p = None, (case p of None \<Rightarrow> [] | Some t \<Rightarrow> t))"

lemma version_key_inj: "version_key v = version_key w \<Longrightarrow> v = w"
  by (cases v; cases w) (auto split: option.splits)

instantiation version :: linorder
begin

definition less_eq_version :: "version \<Rightarrow> version \<Rightarrow> bool" where
  "less_eq_version v w \<longleftrightarrow> version_key v \<le> version_key w"

definition less_version :: "version \<Rightarrow> version \<Rightarrow> bool" where
  "less_version v w \<longleftrightarrow> version_key v < version_key w"

instance
proof
  fix x y z :: version
  show "(x < y) = (x \<le> y \<and> \<not> y \<le> x)"
    unfolding less_eq_version_def less_version_def by (rule less_le_not_le)
  show "x \<le> x"
    unfolding less_eq_version_def by simp
  show "x \<le> y \<Longrightarrow> y \<le> z \<Longrightarrow> x \<le> z"
    unfolding less_eq_version_def by (rule order_trans)
  show "x \<le> y \<Longrightarrow> y \<le> x \<Longrightarrow> x = y"
    unfolding less_eq_version_def by (rule version_key_inj) (rule antisym)
  show "x \<le> y \<or> y \<le> x"
    unfolding less_eq_version_def by (rule linear)
qed

end

text \<open>Modelled from the spec: the constructor \<^verbatim>\<open>Version(version_str)\<close> applied to the
  string \<^verbatim>\<open>f"{major}.{minor}.{patch}"\<close>, followed by the prerelease marker \<^verbatim>\<open>.dev0\<close> for a
  preview.  A negative number does not give a version string: the constructor raises
  \<^verbatim>\<open>ValueError\<close>, which is \<open>None\<close> here.\<close>

definition Version_of_numbers :: "int \<Rightarrow> int \<Rightarrow> int \<Rightarrow> bool \<Rightarrow> version option" where
  "Version_of_numbers ma mi pa is_preview =
     (if ma < 0 \<or> mi < 0 \<or> pa < 0 then None
      else Some (Version (nat ma) (nat mi) (nat pa) (if is_preview then Some ''dev0'' else None)))"

subsection \<open>Decoding a folder's version fragment: \<^verbatim>\<open>get_semantic_version\<close>\<close>

text \<open>The three calls of \<^verbatim>\<open>int\<close> and the construction of the version; any \<^verbatim>\<open>ValueError\<close>
  among them is caught by the function and gives \<open>None\<close>.\<close>

definition version_of_parts :: "int option \<Rightarrow> int option \<Rightarrow> int option \<Rightarrow> bool \<Rightarrow> version option" where
  "version_of_parts ma mi pa is_preview =
     (case ma of None \<Rightarrow> None | Some a \<Rightarrow>
       (case mi of None \<Rightarrow> None | Some b \<Rightarrow>
         (case pa of None \<Rightarrow> None | Some c \<Rightarrow> Version_of_numbers a b c is_preview)))"

definition get_semantic_version :: "string \<Rightarrow> bool \<Rightarrow> version option" where
  "get_semantic_version qt_ver is_preview =
     (if qt_ver = [] then None
      else if CHR ''_'' \<in> set qt_ver then
        (let parts = split_chr CHR ''_'' qt_ver
         in if length parts < 2 \<or> length parts > 3 then None
            else version_of_parts (py_int (parts ! 0)) (py_int (parts ! 1))
                   (if length parts = 3 then py_int (parts ! 2) else Some 0) is_preview)
      else if \<exists>ch \<in> set qt_ver. \<not> isdigit ch then None
      else if length qt_ver \<ge> 4 then
        version_of_parts (py_int (take 1 qt_ver)) (py_int (take 2 (drop 1 qt_ver)))
          (py_int (drop 3 qt_ver)) is_preview
      else if length qt_ver = 3 then
        version_of_parts (py_int (take 1 qt_ver)) (py_int (take 1 (drop 1 qt_ver)))
          (py_int (drop 2 qt_ver)) is_preview
      else if length qt_ver = 2 then
        version_of_parts (py_int (take 1 qt_ver)) (py_int (drop 1 qt_ver)) (Some 0) is_preview
      else None)"

text \<open>The reading of a packed fragment in the words of the specification: the first
  digit is the major number; with four digits or more the next two digits are the minor
  number and the rest is the patch number; with three digits the second is the minor and
  the third the patch number; with two digits the second is the minor number and the
  patch number is 0.\<close>

definition packed_numbers :: "string \<Rightarrow> nat \<times> nat \<times> nat" where
  "packed_numbers s =
     (if length s \<ge> 4 then (digits_val (take 1 s), digits_val (take 2 (drop 1 s)), digits_val (drop 3 s))
      else if length s = 3 then (digits_val [s ! 0], digits_val [s ! 1], digits_val [s ! 2])
      else (digits_val [s ! 0], digits_val [s ! 1], 0))"

text \<open>The underscore form of three numbers: their decimal writings, joined by
  underscores.\<close>

definition underscore_form :: "nat \<times> nat \<times> nat \<Rightarrow> string" where
  "underscore_form t = (case t of (ma, mi, pa) \<Rightarrow>
     str_nat ma @ ''_'' @ str_nat mi @ ''_'' @ str_nat pa)"

subsection \<open>Properties of the decoding\<close>

lemma split_chr_nonempty: "split_chr sep s \<noteq> []"
  by (induction s) (auto simp: Let_def)

lemma split_chr_no_sep: "sep \<notin> set s \<Longrightarrow> split_chr sep s = [s]"
  by (induction s) (auto simp: Let_def)

lemma split_chr_append: "sep \<notin> set a \<Longrightarrow> split_chr sep (a @ sep # b) = a # split_chr sep b"
  by (induction a) (auto simp: Let_def)

lemma isdigit_iff: "isdigit ch \<longleftrightarrow> 48 \<le> (of_char ch :: nat) \<and> (of_char ch :: nat) \<le> 57"
  by (simp add: isdigit_def less_eq_char_def)

lemma isdigit_digit_char: "d < 10 \<Longrightarrow> isdigit (digit_char d)"
  by (simp add: isdigit_iff digit_char_def)

lemma digit_val_digit_char: "d < 10 \<Longrightarrow> digit_val (digit_char d) = d"
  by (simp add: digit_val_def digit_char_def)

lemma digits_val_snoc: "digits_val (ds @ [ch]) = 10 * digits_val ds + digit_val ch"
  by (simp add: digits_val_def)

lemma str_nat_digits: "ch \<in> set (str_nat n) \<Longrightarrow> isdigit ch"
  by (induction n rule: str_nat.induct) (subst (asm) str_nat.simps, auto simp: isdigit_digit_char split: if_splits)

lemma str_nat_nonempty: "str_nat n \<noteq> []"
  by (subst str_nat.simps) simp

lemma digits_val_str_nat: "digits_val (str_nat n) = n"
proof (induction n rule: str_nat.induct)
  case (1 n)
  show ?case
  proof (cases "n < 10")
    case True
    then show ?thesis
      by (subst str_nat.simps) (simp add: digits_val_def digit_val_digit_char)
  next
    case False
    then show ?thesis
      using 1 by (subst str_nat.simps) (simp add: digits_val_snoc digit_val_digit_char)
  qed
qed

lemma isdigit_not_space: "isdigit ch \<Longrightarrow> \<not> isspace ch"
  by (auto simp: isdigit_iff isspace_def)

lemma isdigit_not_sign: "isdigit ch \<Longrightarrow> ch \<noteq> CHR ''-'' \<and> ch \<noteq> CHR ''+'' \<and> ch \<noteq> CHR ''_''"
  by (auto simp: isdigit_iff)

lemma dropWhile_none: "xs \<noteq> [] \<Longrightarrow> \<not> P (hd xs) \<Longrightarrow> dropWhile P xs = xs"
  by (cases xs) auto

lemma strip_digits: "\<forall>ch \<in> set ds. isdigit ch \<Longrightarrow> strip ds = ds"
proof (cases "ds = []")
  case True
  then show ?thesis by (simp add: strip_def)
next
  case False
  assume d: "\<forall>ch \<in> set ds. isdigit ch"
  have "\<not> isspace (hd ds)" using False d by (simp add: isdigit_not_space)
  then have a: "dropWhile isspace ds = ds" using False by (simp add: dropWhile_none)
  have "\<not> isspace (hd (rev ds))" using False d by (simp add: isdigit_not_space hd_rev)
  then have "dropWhile isspace (rev ds) = rev ds" using False by (simp add: dropWhile_none)
  with a show ?thesis by (simp add: strip_def)
qed

lemma digit_val_le: "isdigit ch \<Longrightarrow> digit_val ch \<le> 9"
  unfolding isdigit_iff digit_val_def by arith

lemma digits_val_less: "\<forall>ch \<in> set ds. isdigit ch \<Longrightarrow> digits_val ds < 10 ^ length ds"
proof (induction ds rule: rev_induct)
  case Nil
  show ?case by (simp add: digits_val_def)
next
  case (snoc ch ds)
  have a: "digits_val ds < 10 ^ length ds" using snoc by simp
  have b: "digit_val ch \<le> 9" using snoc.prems by (simp add: digit_val_le)
  from a have "10 * digits_val ds + 10 \<le> 10 * 10 ^ length ds" by simp
  with b show ?case by (simp add: digits_val_snoc)
qed

lemma length_str_nat: "0 < k \<Longrightarrow> n < 10 ^ k \<Longrightarrow> length (str_nat n) \<le> k"
proof (induction n arbitrary: k rule: str_nat.induct)
  case (1 n)
  show ?case
  proof (cases "n < 10")
    case True
    then show ?thesis using 1(2) by (subst str_nat.simps) simp
  next
    case False
    obtain j where k: "k = Suc j" using 1(2) by (cases k) auto
    have j: "0 < j"
    proof (rule ccontr)
      assume "\<not> 0 < j"
      then have "k = 1" using k by simp
      with 1(3) False show False by simp
    qed
    have "n div 10 < 10 ^ j" using 1(3) k by (simp add: less_mult_imp_div_less mult.commute)
    then have "length (str_nat (n div 10)) \<le> j" using 1(1) [OF False j] by simp
    then show ?thesis using False k by (subst str_nat.simps) simp
  qed
qed

lemma length_str_nat_digits_val:
  assumes "ds \<noteq> []" "\<forall>ch \<in> set ds. isdigit ch"
  shows "length (str_nat (digits_val ds)) \<le> length ds"
  using assms length_str_nat [of "length ds" "digits_val ds"] digits_val_less [of ds] by simp

lemma py_int_digits_limit:
  assumes "ds \<noteq> []" "\<forall>ch \<in> set ds. isdigit ch"
  shows "py_int ds = (if length ds \<le> int_max_str_digits then Some (int (digits_val ds)) else None)"
proof -
  have s: "strip ds = ds" using assms(2) by (rule strip_digits)
  have "isdigit (hd ds)" using assms by simp
  then have h: "hd ds \<noteq> CHR ''-''" "hd ds \<noteq> CHR ''+''"
    using isdigit_not_sign [of "hd ds"] by blast+
  have u: "CHR ''_'' \<notin> set ds"
    using assms(2) isdigit_not_sign [of "CHR ''_''"] by blast
  have g: "split_chr CHR ''_'' ds = [ds]" using u by (rule split_chr_no_sep)
  show ?thesis
    unfolding py_int_def s Let_def using assms h by (simp add: g)
qed

lemma py_int_digits:
  assumes "ds \<noteq> []" "\<forall>ch \<in> set ds. isdigit ch" "length ds \<le> int_max_str_digits"
  shows "py_int ds = Some (int (digits_val ds))"
  using py_int_digits_limit [OF assms(1,2)] assms(3) by simp

lemma py_int_str_nat:
  "length (str_nat n) \<le> int_max_str_digits \<Longrightarrow> py_int (str_nat n) = Some (int n)"
  using py_int_digits [of "str_nat n"] by (simp add: str_nat_nonempty str_nat_digits digits_val_str_nat)

lemma str_nat_no_underscore: "CHR ''_'' \<notin> set (str_nat n)"
  by (auto dest: str_nat_digits isdigit_not_sign)

lemma split_underscore_form:
  "split_chr CHR ''_'' (underscore_form (a, b, c)) = [str_nat a, str_nat b, str_nat c]"
  by (simp add: underscore_form_def split_chr_append str_nat_no_underscore split_chr_no_sep)

lemma underscore_in_form: "CHR ''_'' \<in> set (underscore_form t)"
  by (cases t) (simp add: underscore_form_def)

lemma get_semantic_version_underscore_form:
  assumes "length (str_nat a) \<le> int_max_str_digits" "length (str_nat b) \<le> int_max_str_digits"
    "length (str_nat c) \<le> int_max_str_digits"
  shows "get_semantic_version (underscore_form (a, b, c)) p =
     Some (Version a b c (if p then Some ''dev0'' else None))"
  using underscore_in_form [of "(a, b, c)"] assms
  by (auto simp: get_semantic_version_def split_underscore_form py_int_str_nat
        version_of_parts_def Version_of_numbers_def)

lemma take_drop_digits:
  assumes "\<forall>ch \<in> set s. isdigit ch"
  shows "\<forall>ch \<in> set (take n s). isdigit ch" "\<forall>ch \<in> set (drop n s). isdigit ch"
    "\<forall>ch \<in> set (take n (drop m s)). isdigit ch"
  using assms by (auto dest: in_set_takeD in_set_dropD)

lemma version_of_parts_Some:
  "version_of_parts (Some (int a)) (Some (int b)) (Some (int c)) p =
     Some (Version a b c (if p then Some ''dev0'' else None))"
  by (simp add: version_of_parts_def Version_of_numbers_def)

lemma length3_shape: "length s = 3 \<Longrightarrow> take 1 s = [s ! 0] \<and> take 1 (drop 1 s) = [s ! 1] \<and> drop 2 s = [s ! 2]"
  by (auto simp: eval_nat_numeral length_Suc_conv)

lemma length2_shape: "length s = 2 \<Longrightarrow> take 1 s = [s ! 0] \<and> drop 1 s = [s ! 1]"
  by (auto simp: eval_nat_numeral length_Suc_conv)

lemma short_within_limit: "length ds \<le> 2 \<Longrightarrow> length ds \<le> int_max_str_digits"
  by (simp add: int_max_str_digits_def)

lemma get_semantic_version_packed:
  assumes len: "2 \<le> length s" and lim: "length s \<le> int_max_str_digits + 3"
    and dig: "\<forall>ch \<in> set s. isdigit ch"
  shows "get_semantic_version s p =
     (case packed_numbers s of (a, b, c) \<Rightarrow> Some (Version a b c (if p then Some ''dev0'' else None)))"
proof -
  have ne: "s \<noteq> []" using len by auto
  have nu: "CHR ''_'' \<notin> set s" using dig isdigit_not_sign [of "CHR ''_''"] by blast
  have nb: "\<not> (\<exists>ch \<in> set s. \<not> isdigit ch)" using dig by simp
  note td = take_drop_digits [OF dig]
  consider "4 \<le> length s" | "length s = 3" | "length s = 2" using len by linarith
  then show ?thesis
  proof cases
    case 1
    have "py_int (take 1 s) = Some (int (digits_val (take 1 s)))"
      using ne td(1) by (intro py_int_digits short_within_limit) auto
    moreover have "py_int (take 2 (drop 1 s)) = Some (int (digits_val (take 2 (drop 1 s))))"
      using 1 td(3) by (intro py_int_digits short_within_limit) auto
    moreover have "py_int (drop 3 s) = Some (int (digits_val (drop 3 s)))"
      using 1 lim td(2) by (intro py_int_digits) auto
    ultimately show ?thesis
      using 1 ne nu nb by (simp add: get_semantic_version_def packed_numbers_def version_of_parts_Some)
  next
    case 2
    note sh = length3_shape [OF 2]
    have "py_int (take 1 s) = Some (int (digits_val (take 1 s)))"
      using ne td(1) by (intro py_int_digits short_within_limit) auto
    moreover have "py_int (take 1 (drop 1 s)) = Some (int (digits_val (take 1 (drop 1 s))))"
      using 2 td(3) by (intro py_int_digits short_within_limit) auto
    moreover have "py_int (drop 2 s) = Some (int (digits_val (drop 2 s)))"
      using 2 td(2) by (intro py_int_digits short_within_limit) auto
    ultimately show ?thesis
      using 2 ne nu nb sh by (simp add: get_semantic_version_def packed_numbers_def version_of_parts_Some)
  next
    case 3
    note sh = length2_shape [OF 3]
    have "py_int (take 1 s) = Some (int (digits_val (take 1 s)))"
      using ne td(1) by (intro py_int_digits short_within_limit) auto
    moreover have "py_int (drop 1 s) = Some (int (digits_val (drop 1 s)))"
      using 3 td(2) by (intro py_int_digits short_within_limit) auto
    ultimately show ?thesis
      using 3 ne nu nb sh version_of_parts_Some [of _ _ 0 p]
      by (simp add: get_semantic_version_def packed_numbers_def)
  qed
qed

lemma version_of_parts_None: "version_of_parts a b None p = None"
  by (simp add: version_of_parts_def split: option.splits)

lemma get_semantic_version_too_long:
  assumes lim: "int_max_str_digits + 3 < length s" and dig: "\<forall>ch \<in> set s. isdigit ch"
  shows "get_semantic_version s p = None"
proof -
  have len: "4 \<le> length s" using lim by simp
  have ne: "s \<noteq> []" using len by auto
  have nu: "CHR ''_'' \<notin> set s" using dig isdigit_not_sign [of "CHR ''_''"] by blast
  have nb: "\<not> (\<exists>ch \<in> set s. \<not> isdigit ch)" using dig by simp
  note td = take_drop_digits [OF dig]
  have "drop 3 s \<noteq> []" using len by simp
  then have "py_int (drop 3 s) = None"
    using py_int_digits_limit [of "drop 3 s"] td(2) lim by simp
  then show ?thesis
    using len ne nu nb by (simp add: get_semantic_version_def version_of_parts_None)
qed

lemma packed_numbers_within_limit:
  assumes len: "2 \<le> length s" and lim: "length s \<le> int_max_str_digits + 3"
    and dig: "\<forall>ch \<in> set s. isdigit ch"
  shows "length (str_nat (fst (packed_numbers s))) \<le> int_max_str_digits \<and>
         length (str_nat (fst (snd (packed_numbers s)))) \<le> int_max_str_digits \<and>
         length (str_nat (snd (snd (packed_numbers s)))) \<le> int_max_str_digits"
proof -
  have bound: "length (str_nat (digits_val ds)) \<le> int_max_str_digits"
    if "ds \<noteq> []" "\<forall>ch \<in> set ds. isdigit ch" "length ds \<le> int_max_str_digits" for ds
    using length_str_nat_digits_val [OF that(1,2)] that(3) by simp
  have zero: "length (str_nat 0) \<le> int_max_str_digits"
    by (subst str_nat.simps) (simp add: int_max_str_digits_def)
  have ne: "s \<noteq> []" using len by auto
  note td = take_drop_digits [OF dig]
  have one: "length [c] \<le> int_max_str_digits" for c :: char
    by (simp add: int_max_str_digits_def)
  have d0: "isdigit (s ! 0)" using dig ne by simp
  have d1: "isdigit (s ! 1)" using dig len by simp
  consider "4 \<le> length s" | "length s = 3" | "length s = 2" using len by linarith
  then show ?thesis
  proof cases
    case 1
    have a: "length (str_nat (digits_val (take 1 s))) \<le> int_max_str_digits"
      using ne td(1) by (intro bound short_within_limit) auto
    have b: "length (str_nat (digits_val (take 2 (drop 1 s)))) \<le> int_max_str_digits"
      using 1 td(3) by (intro bound short_within_limit) auto
    have c: "length (str_nat (digits_val (drop 3 s))) \<le> int_max_str_digits"
      using 1 lim td(2) by (intro bound) auto
    show ?thesis using 1 a b c by (simp add: packed_numbers_def)
  next
    case 2
    have d2: "isdigit (s ! 2)" using dig 2 by simp
    have "length (str_nat (digits_val [s ! 0])) \<le> int_max_str_digits"
      "length (str_nat (digits_val [s ! 1])) \<le> int_max_str_digits"
      "length (str_nat (digits_val [s ! 2])) \<le> int_max_str_digits"
      using d0 d1 d2 one by (auto intro!: bound)
    then show ?thesis using 2 by (simp add: packed_numbers_def)
  next
    case 3
    have "length (str_nat (digits_val [s ! 0])) \<le> int_max_str_digits"
      "length (str_nat (digits_val [s ! 1])) \<le> int_max_str_digits"
      using d0 d1 one by (auto intro!: bound)
    then show ?thesis using 3 zero by (simp add: packed_numbers_def)
  qed
qed

lemma get_semantic_version_short: "length s \<le> 1 \<Longrightarrow> get_semantic_version s p = None"
proof -
  assume "length s \<le> 1"
  then consider "s = []" | ch where "s = [ch]"
    by (cases s) auto
  then show ?thesis
  proof cases
    case 1
    then show ?thesis by (simp add: get_semantic_version_def)
  next
    case 2
    show ?thesis
    proof (cases "ch = CHR ''_''")
      case True
      then show ?thesis using 2
        by (simp add: get_semantic_version_def version_of_parts_def py_int_def strip_def)
    next
      case False
      then show ?thesis using 2 by (simp add: get_semantic_version_def)
    qed
  qed
qed

lemma digits_val_zeros: "digits_val (replicate n CHR ''0'') = 0"
proof -
  have "foldl (\<lambda>a ch. 10 * a + digit_val ch) 0 (replicate n CHR ''0'') = 0"
    by (induction n) (simp_all add: digit_val_def)
  then show ?thesis by (simp add: digits_val_def)
qed

text \<open>
  Claim C1 as stated fails for a long fragment: \<^verbatim>\<open>int()\<close> refuses a literal of more than
  4300 digits, and the function turns that \<^verbatim>\<open>ValueError\<close> into an absent result.  The
  fragment \<^verbatim>\<open>512\<close> followed by 4301 zeros encodes (5, 12, 0); it decodes to nothing, and
  the underscore form \<^verbatim>\<open>5_12_0\<close> of the same numbers decodes to 5.12.0.
\<close>

theorem get_semantic_version_long_fragment:
  "get_semantic_version (''512'' @ replicate 4301 CHR ''0'') False = None
   \<and> get_semantic_version (underscore_form (packed_numbers (''512'' @ replicate 4301 CHR ''0''))) False
       = Some (Version 5 12 0 None)"
proof -
  let ?s = "''512'' @ replicate 4301 CHR ''0''"
  have dig: "\<forall>ch \<in> set ?s. isdigit ch" by (simp add: isdigit_iff)
  have len: "int_max_str_digits + 3 < length ?s" by (simp add: int_max_str_digits_def)
  have a: "get_semantic_version ?s False = None"
    using len dig by (rule get_semantic_version_too_long)
  have d1: "digits_val ''5'' = 5" by code_simp
  have d2: "digits_val ''12'' = 12" by code_simp
  have p: "packed_numbers ?s = (5, 12, 0)"
    by (simp add: packed_numbers_def eval_nat_numeral digits_val_zeros d1 d2
        del: replicate.simps replicate_Suc)
  have u: "underscore_form (5, 12, 0) = ''5_12_0''" by code_simp
  have b: "get_semantic_version ''5_12_0'' False = Some (Version 5 12 0 None)" by code_simp
  show ?thesis using a b by (simp only: p u)
qed

text \<open>
  Claim C1, amended.  A packed fragment of at least two and at most 4303 decimal digits
  (one for the major number, two for the minor number, and as many as \<^verbatim>\<open>int()\<close> accepts
  for the patch number) decodes to the same version as the underscore form of the numbers
  it encodes, namely to the version with those numbers (marked as a prerelease for a
  preview); a longer fragment of digits decodes to nothing.  \<^verbatim>\<open>51212\<close> decodes to
  5.12.12, \<^verbatim>\<open>600\<close> to 6.0.0, \<^verbatim>\<open>6_7_3\<close> to 6.7.3 and \<^verbatim>\<open>12\<close> to 1.2.0.  The result is
  absent for the empty string, for a fragment without underscore that has a character
  that is not a digit, for a fragment of length at most 1, and for an underscore fragment
  that does not split into 2 or 3 parts.
\<close>

theorem get_semantic_version_dual_encoding:
  "(2 \<le> length s \<and> length s \<le> int_max_str_digits + 3 \<and> (\<forall>ch \<in> set s. isdigit ch) \<longrightarrow>
      get_semantic_version s p = get_semantic_version (underscore_form (packed_numbers s)) p \<and>
      get_semantic_version s p =
        Some (Version (fst (packed_numbers s)) (fst (snd (packed_numbers s)))
               (snd (snd (packed_numbers s))) (if p then Some ''dev0'' else None)))
   \<and> (int_max_str_digits + 3 < length s \<and> (\<forall>ch \<in> set s. isdigit ch) \<longrightarrow>
        get_semantic_version s p = None)
   \<and> int_max_str_digits + 3 = 4303
   \<and> get_semantic_version ''51212'' False = Some (Version 5 12 12 None)
   \<and> get_semantic_version ''600'' False = Some (Version 6 0 0 None)
   \<and> get_semantic_version ''6_7_3'' False = Some (Version 6 7 3 None)
   \<and> get_semantic_version ''12'' False = Some (Version 1 2 0 None)
   \<and> get_semantic_version [] p = None
   \<and> (CHR ''_'' \<notin> set s \<and> (\<exists>ch \<in> set s. \<not> isdigit ch) \<longrightarrow> get_semantic_version s p = None)
   \<and> (length s \<le> 1 \<longrightarrow> get_semantic_version s p = None)
   \<and> (CHR ''_'' \<in> set s \<and>
        (length (split_chr CHR ''_'' s) < 2 \<or> length (split_chr CHR ''_'' s) > 3) \<longrightarrow>
        get_semantic_version s p = None)"
proof -
  have packed: "get_semantic_version s p = get_semantic_version (underscore_form (packed_numbers s)) p \<and>
      get_semantic_version s p =
        Some (Version (fst (packed_numbers s)) (fst (snd (packed_numbers s)))
               (snd (snd (packed_numbers s))) (if p then Some ''dev0'' else None))"
    if "2 \<le> length s" "length s \<le> int_max_str_digits + 3" "\<forall>ch \<in> set s. isdigit ch"
  proof -
    obtain a b c where t: "packed_numbers s = (a, b, c)" by (cases "packed_numbers s") auto
    have w: "length (str_nat a) \<le> int_max_str_digits" "length (str_nat b) \<le> int_max_str_digits"
      "length (str_nat c) \<le> int_max_str_digits"
      using packed_numbers_within_limit [OF that] by (simp_all add: t)
    show ?thesis
      using get_semantic_version_packed [OF that, of p]
        get_semantic_version_underscore_form [OF w, of p]
      by (simp add: t)
  qed
  have long: "get_semantic_version s p = None"
    if "int_max_str_digits + 3 < length s \<and> (\<forall>ch \<in> set s. isdigit ch)"
    using that get_semantic_version_too_long [of s p] by blast
  have lim: "int_max_str_digits + 3 = 4303" by (simp add: int_max_str_digits_def)
  have l1: "get_semantic_version ''51212'' False = Some (Version 5 12 12 None)" by code_simp
  have l2: "get_semantic_version ''600'' False = Some (Version 6 0 0 None)" by code_simp
  have l3: "get_semantic_version ''6_7_3'' False = Some (Version 6 7 3 None)" by code_simp
  have l4: "get_semantic_version ''12'' False = Some (Version 1 2 0 None)" by code_simp
  have e: "get_semantic_version [] p = None" by (simp add: get_semantic_version_def)
  have nd: "get_semantic_version s p = None"
    if "CHR ''_'' \<notin> set s \<and> (\<exists>ch \<in> set s. \<not> isdigit ch)"
    using that by (auto simp: get_semantic_version_def)
  have ar: "get_semantic_version s p = None"
    if "CHR ''_'' \<in> set s \<and>
        (length (split_chr CHR ''_'' s) < 2 \<or> length (split_chr CHR ''_'' s) > 3)"
    using that by (auto simp: get_semantic_version_def Let_def)
  show ?thesis
    using packed long lim l1 l2 l3 l4 e nd ar get_semantic_version_short [of s p] by blast
qed

theorem get_semantic_version_dual_encoding_witness:
  "get_semantic_version ''5152'' True = get_semantic_version ''5_15_2'' True
   \<and> get_semantic_version ''5152'' True = Some (Version 5 15 2 (Some ''dev0''))
   \<and> get_semantic_version (replicate 4304 CHR ''7'') False = None
   \<and> get_semantic_version ''5a'' False = None
   \<and> get_semantic_version ''7'' False = None
   \<and> get_semantic_version ''6_7_3_1'' False = None"
proof -
  have u: "underscore_form (packed_numbers ''5152'') = ''5_15_2''" by code_simp
  have p: "packed_numbers ''5152'' = (5, 15, 2)" by code_simp
  have h1: "2 \<le> length ''5152'' \<and> length ''5152'' \<le> int_max_str_digits + 3 \<and>
      (\<forall>ch \<in> set ''5152''. isdigit ch)" by code_simp
  have h2: "CHR ''_'' \<notin> set ''5a'' \<and> (\<exists>ch \<in> set ''5a''. \<not> isdigit ch)" by code_simp
  have h3: "length ''7'' \<le> 1" by simp
  have h4: "CHR ''_'' \<in> set ''6_7_3_1'' \<and>
      (length (split_chr CHR ''_'' ''6_7_3_1'') < 2 \<or> length (split_chr CHR ''_'' ''6_7_3_1'') > 3)"
    by code_simp
  have h5: "int_max_str_digits + 3 < length (replicate 4304 CHR ''7'') \<and>
      (\<forall>ch \<in> set (replicate 4304 CHR ''7''). isdigit ch)"
    by (simp add: int_max_str_digits_def isdigit_iff)
  have a: "get_semantic_version ''5152'' True =
        get_semantic_version (underscore_form (packed_numbers ''5152'')) True \<and>
      get_semantic_version ''5152'' True =
        Some (Version (fst (packed_numbers ''5152'')) (fst (snd (packed_numbers ''5152'')))
               (snd (snd (packed_numbers ''5152''))) (if True then Some ''dev0'' else None))"
    using get_semantic_version_dual_encoding [of "''5152''" True] h1 by blast
  have a': "get_semantic_version ''5152'' True = get_semantic_version ''5_15_2'' True \<and>
      get_semantic_version ''5152'' True = Some (Version 5 15 2 (Some ''dev0''))"
    using a unfolding u by (auto simp: p)
  have b: "get_semantic_version ''5a'' False = None"
    using get_semantic_version_dual_encoding [of "''5a''" False] h2 by blast
  have c: "get_semantic_version ''7'' False = None"
    using get_semantic_version_dual_encoding [of "''7''" False] h3 by blast
  have d: "get_semantic_version ''6_7_3_1'' False = None"
    using get_semantic_version_dual_encoding [of "''6_7_3_1''" False] h4 by blast
  have e: "get_semantic_version (replicate 4304 CHR ''7'') False = None"
    using get_semantic_version_dual_encoding [of "replicate 4304 CHR ''7''" False] h5 by blast
  show ?thesis
    using a' b c d e by blast
qed

subsection \<open>Archive identifiers and repository paths\<close>

text \<open>The class \<^verbatim>\<open>ArchiveId\<close>.  Its constructor assigns \<^verbatim>\<open>category\<close>, \<^verbatim>\<open>host\<close> and
  \<^verbatim>\<open>target\<close>.  The method \<^verbatim>\<open>to_url\<close> also reads an attribute \<^verbatim>\<open>version\<close>; the field
  \<open>version\<close> is that attribute, \<open>None\<close> as long as nothing has assigned it.\<close>

record ArchiveId =
  category :: string
  host :: string
  target :: string
  version :: "version option"

text \<open>\<^verbatim>\<open>ArchiveId.__init__\<close>.  The tables \<^verbatim>\<open>CATEGORIES\<close>, \<^verbatim>\<open>HOSTS\<close> and \<^verbatim>\<open>TARGETS_FOR_HOST\<close>
  belong to \<^verbatim>\<open>QtRepoProperty\<close>, which is not among the sources: they are parameters.  A host
  without an entry in \<^verbatim>\<open>TARGETS_FOR_HOST\<close> is a \<^verbatim>\<open>KeyError\<close>.\<close>

definition ArchiveId_init ::
  "string list \<Rightarrow> string list \<Rightarrow> (string \<rightharpoonup> string list) \<Rightarrow>
   string \<Rightarrow> string \<Rightarrow> string \<Rightarrow> exn + ArchiveId" where
  "ArchiveId_init CATEGORIES HOSTS TARGETS_FOR_HOST cat hst tgt =
     (if cat \<notin> set CATEGORIES then Inl ValueError
      else if hst \<notin> set HOSTS then Inl ValueError
      else (case TARGETS_FOR_HOST hst of
              None \<Rightarrow> Inl KeyError
            | Some targets \<Rightarrow>
                if tgt \<notin> set targets then Inl ValueError
                else Inr \<lparr>category = cat, host = hst, target = tgt, version = None\<rparr>))"

definition is_preview :: "ArchiveId \<Rightarrow> bool" where
  "is_preview a = False"

definition is_qt :: "ArchiveId \<Rightarrow> bool" where
  "is_qt a \<longleftrightarrow> category a = ''qt''"

definition is_tools :: "ArchiveId \<Rightarrow> bool" where
  "is_tools a \<longleftrightarrow> category a = ''tools''"

text \<open>The suffix of the host folder, as \<^verbatim>\<open>to_url\<close> computes it.\<close>

definition host_arch :: "string \<Rightarrow> string" where
  "host_arch hst =
     (if hst = ''windows'' then ''_x86''
      else if hst \<in> set [''linux_arm64'', ''all_os'', ''windows_arm64''] then [] else ''_x64'')"

text \<open>\<^verbatim>\<open>ArchiveId.to_url\<close>.  The conjunction is evaluated from the left, so the attribute
  \<^verbatim>\<open>version\<close> is read only for the target \<^verbatim>\<open>desktop\<close> on a wasm host; reading it when it
  was never assigned raises \<^verbatim>\<open>AttributeError\<close>.\<close>

definition to_url :: "ArchiveId \<Rightarrow> exn + string" where
  "to_url a =
     (if target a = ''desktop'' \<and> host a \<in> set [''wasm_singlethread'', ''wasm_multithread'']
      then (case version a of
              None \<Rightarrow> Inl AttributeError
            | Some v \<Rightarrow>
                if v \<ge> Version 6 7 0 None then Inr ''online/qtsdkrepository/all_os/wasm/''
                else Inr (''online/qtsdkrepository/'' @ host a @ host_arch (host a) @ ''/''
                          @ target a @ ''/''))
      else Inr (''online/qtsdkrepository/'' @ host a @ host_arch (host a) @ ''/''
                @ target a @ ''/''))"

text \<open>\<^verbatim>\<open>version in SimpleSpec("5.9.0")\<close>: the specification of the single version 5.9.0
  (library \<^verbatim>\<open>semantic_version\<close>).\<close>

definition in_SimpleSpec_5_9_0 :: "version \<Rightarrow> bool" where
  "in_SimpleSpec_5_9_0 v \<longleftrightarrow> v = Version 5 9 0 None"

text \<open>\<^verbatim>\<open>MetadataFactory._get_qt_version_str\<close>, for the factory's archive identifier.\<close>

definition get_qt_version_str :: "ArchiveId \<Rightarrow> version \<Rightarrow> string" where
  "get_qt_version_str a v =
     (let patch_str =
            (if prerelease v \<noteq> None \<or> is_preview a \<or> in_SimpleSpec_5_9_0 v then []
             else str_nat (patch v))
      in str_nat (major v) @ str_nat (minor v) @ patch_str)"

text \<open>
  Claim C7.  The compact version string is the decimal writing of the major number
  followed by that of the minor number and that of the patch number, and the patch number
  is left out exactly when the version is a prerelease, the archive identifier is a
  preview, or the version is 5.9.0: version 5.9.0 gives \<^verbatim>\<open>59\<close> and version 5.9.1 gives
  \<^verbatim>\<open>591\<close>.
\<close>

theorem get_qt_version_str_patch:
  "get_qt_version_str a v =
     str_nat (major v) @ str_nat (minor v) @
       (if prerelease v \<noteq> None \<or> is_preview a \<or> v = Version 5 9 0 None then []
        else str_nat (patch v))
   \<and> ((get_qt_version_str a v = str_nat (major v) @ str_nat (minor v)) =
        (prerelease v \<noteq> None \<or> is_preview a \<or> v = Version 5 9 0 None))
   \<and> get_qt_version_str a (Version 5 9 0 None) = ''59''
   \<and> get_qt_version_str a (Version 5 9 1 None) = ''591''"
proof -
  have d: "str_nat 5 = ''5''" "str_nat 9 = ''9''" "str_nat 1 = ''1''"
    by code_simp+
  have e1: "get_qt_version_str a (Version 5 9 0 None) = ''59''"
    by (simp add: get_qt_version_str_def in_SimpleSpec_5_9_0_def d)
  have e2: "get_qt_version_str a (Version 5 9 1 None) = ''591''"
    by (simp add: get_qt_version_str_def in_SimpleSpec_5_9_0_def is_preview_def d del: One_nat_def)
  show ?thesis
    using e1 e2 str_nat_nonempty [of "patch v"]
    by (auto simp: get_qt_version_str_def in_SimpleSpec_5_9_0_def Let_def)
qed

theorem get_qt_version_str_patch_witness:
  "get_qt_version_str \<lparr>category = ''qt'', host = ''linux'', target = ''desktop'', version = None\<rparr>
      (Version 6 2 4 None) = ''624''
   \<and> get_qt_version_str \<lparr>category = ''qt'', host = ''linux'', target = ''desktop'', version = None\<rparr>
      (Version 6 2 4 (Some ''dev0'')) = ''62''"
proof -
  have d: "str_nat 6 = ''6''" "str_nat 2 = ''2''" "str_nat 4 = ''4''"
    by code_simp+
  show ?thesis
    using get_qt_version_str_patch [of "\<lparr>category = ''qt'', host = ''linux'', target = ''desktop'', version = None\<rparr>" "Version 6 2 4 None"]
      get_qt_version_str_patch [of "\<lparr>category = ''qt'', host = ''linux'', target = ''desktop'', version = None\<rparr>" "Version 6 2 4 (Some ''dev0'')"]
    by (simp add: is_preview_def d)
qed

text \<open>
  Claim C3.  The claim gives a path for every archive identifier: the flattened path
  \<^verbatim>\<open>online/qtsdkrepository/all_os/wasm/\<close> for the target \<^verbatim>\<open>desktop\<close> on a wasm host from
  version 6.7.0 on, and the host path otherwise.  An archive identifier as its constructor
  leaves it has no \<^verbatim>\<open>version\<close> attribute, and \<^verbatim>\<open>to_url\<close> reads that attribute for the target
  \<^verbatim>\<open>desktop\<close> on a wasm host: there the call raises \<^verbatim>\<open>AttributeError\<close> and gives no path.
\<close>

theorem to_url_wasm_desktop_raises:
  "ArchiveId_init [''tools'', ''qt''] [''linux'', ''wasm_singlethread'']
       [''linux'' \<mapsto> [''android'', ''desktop''], ''wasm_singlethread'' \<mapsto> [''desktop'']]
       ''qt'' ''wasm_singlethread'' ''desktop''
     = Inr \<lparr>category = ''qt'', host = ''wasm_singlethread'', target = ''desktop'', version = None\<rparr>
   \<and> to_url \<lparr>category = ''qt'', host = ''wasm_singlethread'', target = ''desktop'', version = None\<rparr>
     = Inl AttributeError"
  by (simp add: ArchiveId_init_def to_url_def)

text \<open>What \<^verbatim>\<open>to_url\<close> gives on every constructed archive identifier, and what it gives
  once a version has been assigned to the attribute.\<close>

lemma ArchiveId_init_version:
  "ArchiveId_init C H T cat hst tgt = Inr a \<Longrightarrow>
     version a = None \<and> category a = cat \<and> host a = hst \<and> target a = tgt"
  by (auto simp: ArchiveId_init_def split: if_splits option.splits)

lemma to_url_constructed:
  assumes "ArchiveId_init C H T cat hst tgt = Inr a"
  shows "to_url a =
     (if tgt = ''desktop'' \<and> hst \<in> set [''wasm_singlethread'', ''wasm_multithread'']
      then Inl AttributeError
      else Inr (''online/qtsdkrepository/'' @ hst @ host_arch hst @ ''/'' @ tgt @ ''/''))"
  using ArchiveId_init_version [OF assms] by (simp add: to_url_def)

lemma to_url_with_version:
  assumes "version a = Some v"
  shows "to_url a =
     Inr (if target a = ''desktop'' \<and> host a \<in> set [''wasm_singlethread'', ''wasm_multithread'']
            \<and> v \<ge> Version 6 7 0 None
          then ''online/qtsdkrepository/all_os/wasm/''
          else ''online/qtsdkrepository/'' @ host a @ host_arch (host a) @ ''/'' @ target a @ ''/'')"
  using assms by (simp add: to_url_def)

subsection \<open>Paths and the construction of the factory\<close>

definition startswith :: "string \<Rightarrow> string \<Rightarrow> bool" where
  "startswith s p \<longleftrightarrow> take (length p) s = p"

definition endswith :: "string \<Rightarrow> string \<Rightarrow> bool" where
  "endswith s p \<longleftrightarrow> length p \<le> length s \<and> drop (length s - length p) s = p"

text \<open>\<^verbatim>\<open>posixpath.join(a, *p)\<close>: a component that starts with a slash replaces what was
  joined before it; otherwise it is appended, after a slash unless the path so far is
  empty or ends with one.\<close>

definition posixpath_join_step :: "string \<Rightarrow> string \<Rightarrow> string" where
  "posixpath_join_step path b =
     (if startswith b ''/'' then b
      else if path = [] \<or> endswith path ''/'' then path @ b
      else path @ ''/'' @ b)"

definition posixpath_join :: "string \<Rightarrow> string list \<Rightarrow> string" where
  "posixpath_join a p = foldl posixpath_join_step a p"

text \<open>The request handlers that \<^verbatim>\<open>MetadataFactory.__init__\<close> can store in \<^verbatim>\<open>_action\<close>, each
  with the values its closure captures.\<close>

datatype action =
    Fetch_tool_long_listing string
  | Fetch_tool_modules string
  | Fetch_tools
  | Fetch_latest_version
  | Fetch_long_modules string string
  | Fetch_modules string string
  | Fetch_arches string
  | Fetch_archives string string "string list"
  | Fetch_modules_sde string version
  | Fetch_archives_sde string version
  | Fetch_versions

record MetadataFactory =
  archive_id :: ArchiveId
  spec :: "(version \<Rightarrow> bool) option"
  base_url :: string
  request_type :: string
  action :: action

text \<open>The name of the tool folder, as the constructor normalizes it.\<close>

definition tool_folder_name :: "string \<Rightarrow> string" where
  "tool_folder_name tool_name =
     (if \<not> startswith tool_name ''tools_'' \<and> tool_name \<noteq> ''sdktool'' then ''tools_'' @ tool_name
      else tool_name)"

text \<open>The selection of the request type and handler in \<^verbatim>\<open>MetadataFactory.__init__\<close>.  A
  modules query is the pair of a version string and an architecture; a query for sources,
  documentation or examples is the triple of command type, version and the flag
  \<^verbatim>\<open>is_modules_query\<close>.\<close>

definition select_action ::
  "ArchiveId \<Rightarrow> bool \<Rightarrow> (string \<times> string) option \<Rightarrow> string option \<Rightarrow> string list option \<Rightarrow>
   (string \<times> version \<times> bool) option \<Rightarrow> string option \<Rightarrow> bool \<Rightarrow> exn + string \<times> action" where
  "select_action a is_latest_version modules_query architectures_ver archives_query
       src_doc_examples_query tool_name is_long_listing =
     (if is_tools a then
        (case tool_name of
           Some tn \<Rightarrow>
             if is_long_listing then Inr (''tool long listing'', Fetch_tool_long_listing (tool_folder_name tn))
             else Inr (''tool variant names'', Fetch_tool_modules (tool_folder_name tn))
         | None \<Rightarrow> Inr (''tools'', Fetch_tools))
      else if is_latest_version then Inr (''latest version'', Fetch_latest_version)
      else if modules_query \<noteq> None then
        (case the modules_query of (ver, arch) \<Rightarrow>
           if is_long_listing then Inr (''long modules'', Fetch_long_modules ver arch)
           else Inr (''modules'', Fetch_modules ver arch))
      else if architectures_ver \<noteq> None then
        Inr (''architectures'', Fetch_arches (the architectures_ver))
      else if archives_query \<noteq> None \<and> archives_query \<noteq> Some [] then
        (let q = the archives_query
         in if length q < 2 then
              Inl (CliInputError
                ''The '--archives' flag requires a 'QT_VERSION' and an 'ARCHITECTURE' parameter.'')
            else Inr (if length q > 2 then ''archives for modules'' else ''archives for qt'',
                      Fetch_archives (q ! 0) (q ! 1) (drop 2 q)))
      else if src_doc_examples_query \<noteq> None then
        (case the src_doc_examples_query of (cmd_type, ver, is_modules_query) \<Rightarrow>
           if is_modules_query then Inr (''modules for '' @ cmd_type, Fetch_modules_sde cmd_type ver)
           else Inr (''archives for '' @ cmd_type, Fetch_archives_sde cmd_type ver))
      else Inr (''versions'', Fetch_versions))"

text \<open>\<^verbatim>\<open>MetadataFactory.__init__\<close>; \<open>Settings_baseurl\<close> is the configured base URL, used
  when no base URL (or an empty one) is given.\<close>

definition MetadataFactory_init ::
  "string \<Rightarrow> ArchiveId \<Rightarrow> string option \<Rightarrow> (version \<Rightarrow> bool) option \<Rightarrow> bool \<Rightarrow>
   (string \<times> string) option \<Rightarrow> string option \<Rightarrow> string list option \<Rightarrow>
   (string \<times> version \<times> bool) option \<Rightarrow> string option \<Rightarrow> bool \<Rightarrow> exn + MetadataFactory" where
  "MetadataFactory_init Settings_baseurl a base_url_arg spec_arg is_latest_version modules_query
       architectures_ver archives_query src_doc_examples_query tool_name is_long_listing =
     (case select_action a is_latest_version modules_query architectures_ver archives_query
             src_doc_examples_query tool_name is_long_listing of
        Inl e \<Rightarrow> Inl e
      | Inr (rt, act) \<Rightarrow>
          Inr \<lparr>archive_id = a, spec = spec_arg,
               base_url = (case base_url_arg of None \<Rightarrow> Settings_baseurl
                           | Some u \<Rightarrow> if u = [] then Settings_baseurl else u),
               request_type = rt, action = act\<rparr>)"

text \<open>The path of the manifest that \<^verbatim>\<open>_fetch_module_metadata(folder)\<close> requests.\<close>

definition module_metadata_url :: "ArchiveId \<Rightarrow> string \<Rightarrow> exn + string" where
  "module_metadata_url a folder =
     (case to_url a of Inl e \<Rightarrow> Inl e
      | Inr u \<Rightarrow> Inr (posixpath_join u [folder, ''Updates.xml'']))"

text \<open>The manifest path of the handler for a tool: \<^verbatim>\<open>fetch_tool_modules\<close> and
  \<^verbatim>\<open>fetch_tool_long_listing\<close> both call \<^verbatim>\<open>_fetch_module_metadata\<close> with the tool name.\<close>

fun action_manifest_url :: "ArchiveId \<Rightarrow> action \<Rightarrow> (exn + string) option" where
  "action_manifest_url a (Fetch_tool_long_listing tn) = Some (module_metadata_url a tn)"
| "action_manifest_url a (Fetch_tool_modules tn) = Some (module_metadata_url a tn)"
| "action_manifest_url a act = None"

lemma tool_folder_name_ifw: "tool_folder_name ''ifw'' = ''tools_ifw''"
  by (simp add: tool_folder_name_def startswith_def)

lemma tool_folder_name_tools_ifw: "tool_folder_name ''tools_ifw'' = ''tools_ifw''"
  by (simp add: tool_folder_name_def startswith_def)

lemma tool_folder_name_sdktool: "tool_folder_name ''sdktool'' = ''sdktool''"
  by (simp add: tool_folder_name_def)

lemma tool_folder_name_prefixed:
  "tool_folder_name tn = ''sdktool'' \<or> startswith (tool_folder_name tn) ''tools_''"
  by (auto simp: tool_folder_name_def startswith_def)

text \<open>
  Claim C10.  For the tools category with a tool name, the factory stores the handler of
  the listing asked for, with the tool name prefixed by \<^verbatim>\<open>tools_\<close> unless the name starts
  with \<^verbatim>\<open>tools_\<close> already or is \<^verbatim>\<open>sdktool\<close>: the factories for \<^verbatim>\<open>ifw\<close> and for \<^verbatim>\<open>tools_ifw\<close>
  are equal, so they request the same manifest, and \<^verbatim>\<open>sdktool\<close> is kept as it is.
\<close>

theorem MetadataFactory_init_tool_name:
  "is_tools a \<Longrightarrow>
   MetadataFactory_init sb a bu sp il mq av aq sq (Some tn) ll =
     Inr \<lparr>archive_id = a, spec = sp,
          base_url = (case bu of None \<Rightarrow> sb | Some u \<Rightarrow> if u = [] then sb else u),
          request_type = (if ll then ''tool long listing'' else ''tool variant names''),
          action = (if ll then Fetch_tool_long_listing else Fetch_tool_modules)
             (if \<not> startswith tn ''tools_'' \<and> tn \<noteq> ''sdktool'' then ''tools_'' @ tn else tn)\<rparr>
   \<and> MetadataFactory_init sb a bu sp il mq av aq sq (Some ''ifw'') ll =
       MetadataFactory_init sb a bu sp il mq av aq sq (Some ''tools_ifw'') ll
   \<and> map_sum id (\<lambda>f. action_manifest_url a (action f))
         (MetadataFactory_init sb a bu sp il mq av aq sq (Some ''ifw'') ll) =
       Inr (Some (module_metadata_url a ''tools_ifw''))
   \<and> map_sum id (\<lambda>f. action_manifest_url a (action f))
         (MetadataFactory_init sb a bu sp il mq av aq sq (Some ''tools_ifw'') ll) =
       Inr (Some (module_metadata_url a ''tools_ifw''))
   \<and> map_sum id (\<lambda>f. action_manifest_url a (action f))
         (MetadataFactory_init sb a bu sp il mq av aq sq (Some ''sdktool'') ll) =
       Inr (Some (module_metadata_url a ''sdktool''))"
  by (simp add: MetadataFactory_init_def select_action_def tool_folder_name_ifw
        tool_folder_name_tools_ifw tool_folder_name_sdktool)
    (simp add: tool_folder_name_def)

theorem MetadataFactory_init_tool_name_witness:
  "MetadataFactory_init ''https://download.qt.io''
       \<lparr>category = ''tools'', host = ''linux'', target = ''desktop'', version = None\<rparr>
       None None False None None None None (Some ''ifw'') False =
     MetadataFactory_init ''https://download.qt.io''
       \<lparr>category = ''tools'', host = ''linux'', target = ''desktop'', version = None\<rparr>
       None None False None None None None (Some ''tools_ifw'') False
   \<and> map_sum id (\<lambda>f. action_manifest_url
            \<lparr>category = ''tools'', host = ''linux'', target = ''desktop'', version = None\<rparr> (action f))
         (MetadataFactory_init ''https://download.qt.io''
            \<lparr>category = ''tools'', host = ''linux'', target = ''desktop'', version = None\<rparr>
            None None False None None None None (Some ''ifw'') False) =
       Inr (Some (Inr ''online/qtsdkrepository/linux_x64/desktop/tools_ifw/Updates.xml''))"
proof -
  have t: "is_tools \<lparr>category = ''tools'', host = ''linux'', target = ''desktop'', version = None\<rparr>"
    by (simp add: is_tools_def)
  have u: "module_metadata_url
      \<lparr>category = ''tools'', host = ''linux'', target = ''desktop'', version = None\<rparr> ''tools_ifw'' =
      Inr ''online/qtsdkrepository/linux_x64/desktop/tools_ifw/Updates.xml''"
    by (simp add: module_metadata_url_def to_url_def host_arch_def posixpath_join_def
          posixpath_join_step_def startswith_def endswith_def)
  note th = MetadataFactory_init_tool_name [OF t, of "''https://download.qt.io''" None None False
        None None None None "''ifw''" False]
  have a: "MetadataFactory_init ''https://download.qt.io''
       \<lparr>category = ''tools'', host = ''linux'', target = ''desktop'', version = None\<rparr>
       None None False None None None None (Some ''ifw'') False =
     MetadataFactory_init ''https://download.qt.io''
       \<lparr>category = ''tools'', host = ''linux'', target = ''desktop'', version = None\<rparr>
       None None False None None None None (Some ''tools_ifw'') False"
    using th by blast
  have b: "map_sum id (\<lambda>f. action_manifest_url
            \<lparr>category = ''tools'', host = ''linux'', target = ''desktop'', version = None\<rparr> (action f))
         (MetadataFactory_init ''https://download.qt.io''
            \<lparr>category = ''tools'', host = ''linux'', target = ''desktop'', version = None\<rparr>
            None None False None None None None (Some ''ifw'') False) =
       Inr (Some (module_metadata_url
            \<lparr>category = ''tools'', host = ''linux'', target = ''desktop'', version = None\<rparr> ''tools_ifw''))"
    using th by blast
  show ?thesis
    using a b unfolding u by blast
qed

subsection \<open>Fetching with a fallback mirror: \<^verbatim>\<open>fetch_http\<close>\<close>

text \<open>The exceptions that the loop of \<^verbatim>\<open>fetch_http\<close> catches.\<close>

fun is_download_or_connection :: "exn \<Rightarrow> bool" where
  "is_download_or_connection (ArchiveDownloadError m) = True"
| "is_download_or_connection (ArchiveConnectionError m) = True"
| "is_download_or_connection e = False"

text \<open>\<^verbatim>\<open>random.choice(seq)\<close>: \<^verbatim>\<open>IndexError\<close> on an empty sequence, otherwise one of its
  elements.  The random source is the number \<open>r\<close>; every element is chosen for some \<open>r\<close>.\<close>

definition random_choice :: "nat \<Rightarrow> 'a list \<Rightarrow> exn + 'a" where
  "random_choice r seq = (if seq = [] then Inl IndexError else Inr (seq ! (r mod length seq)))"

text \<open>The loop over \<^verbatim>\<open>base_urls\<close>.  \<open>getUrl\<close> is the transport of \<^verbatim>\<open>aqt.helper\<close>, a
  parameter: it gives the text of a URL or raises.  The result is the list of the URLs
  requested, in order, and the text returned or the exception raised; \<open>err\<close> is the
  exception of the last failed attempt.\<close>

fun try_base_urls ::
  "(string \<Rightarrow> string option \<Rightarrow> exn + string) \<Rightarrow> string option \<Rightarrow> string \<Rightarrow> exn \<Rightarrow>
   string list \<Rightarrow> string list \<times> (exn + string)" where
  "try_base_urls getUrl expected_hash rest_of_url err [] = ([], Inl err)"
| "try_base_urls getUrl expected_hash rest_of_url err (base # base_urls) =
     (let url = posixpath_join base [rest_of_url]
      in case getUrl url expected_hash of
           Inr text \<Rightarrow> ([url], Inr text)
         | Inl e \<Rightarrow>
             if is_download_or_connection e then
               (case try_base_urls getUrl expected_hash rest_of_url e base_urls of
                  (urls, res) \<Rightarrow> (url # urls, res))
             else ([url], Inl e))"

text \<open>\<^verbatim>\<open>MetadataFactory.fetch_http\<close>.  \<open>get_hash\<close> is the hash retrieval of \<^verbatim>\<open>aqt.helper\<close>
  and \<open>fallbacks\<close> is \<^verbatim>\<open>Settings.fallbacks\<close>, both parameters.  The expected hash is
  retrieved first, then the fallback is drawn, then the two base URLs are tried.\<close>

definition fetch_http ::
  "(string \<Rightarrow> string option \<Rightarrow> exn + string) \<Rightarrow> (string \<Rightarrow> exn + string) \<Rightarrow>
   string \<Rightarrow> string list \<Rightarrow> nat \<Rightarrow> string \<Rightarrow> bool \<Rightarrow> string list \<times> (exn + string)" where
  "fetch_http getUrl get_hash base fallbacks r rest_of_url is_check_hash =
     (case (if is_check_hash then map_sum id Some (get_hash rest_of_url) else Inr None) of
        Inl e \<Rightarrow> ([], Inl e)
      | Inr expected_hash \<Rightarrow>
          (case random_choice r fallbacks of
             Inl e \<Rightarrow> ([], Inl e)
           | Inr fallback \<Rightarrow>
               try_base_urls getUrl expected_hash rest_of_url AssertionError [base, fallback]))"

text \<open>A network in which only the mirror \<^verbatim>\<open>https://m2\<close> serves the path \<^verbatim>\<open>p\<close> and every
  other request fails to connect.\<close>

definition only_m2_serves :: "string \<Rightarrow> string option \<Rightarrow> exn + string" where
  "only_m2_serves url expected_hash =
     (if url = ''https://m2/p'' then Inr ''text of p'' else Inl (ArchiveConnectionError url))"

definition no_hash :: "string \<Rightarrow> exn + string" where
  "no_hash rest_of_url = Inl (ArchiveDownloadError rest_of_url)"

lemma random_choice_member:
  "seq \<noteq> [] \<Longrightarrow> random_choice r seq = Inr (seq ! (r mod length seq)) \<and> seq ! (r mod length seq) \<in> set seq"
  by (simp add: random_choice_def)

lemma random_choice_any: "i < length seq \<Longrightarrow> random_choice i seq = Inr (seq ! i)"
  by (auto simp: random_choice_def)

text \<open>
  Claim C2 as stated fails: with two fallback mirrors configured, the primary host and
  the drawn mirror \<^verbatim>\<open>https://m1\<close> failing and the other mirror \<^verbatim>\<open>https://m2\<close> serving the
  path, the fetch requests two URLs only, never the one of \<^verbatim>\<open>https://m2\<close>, and fails.
\<close>

theorem fetch_http_one_fallback_only:
  "fetch_http only_m2_serves no_hash ''https://primary'' [''https://m1'', ''https://m2''] 0 ''p'' False
     = ([''https://primary/p'', ''https://m1/p''], Inl (ArchiveConnectionError ''https://m1/p''))
   \<and> only_m2_serves (posixpath_join ''https://m2'' [''p'']) None = Inr ''text of p''"
  by (simp add: fetch_http_def random_choice_def only_m2_serves_def posixpath_join_def
        posixpath_join_step_def startswith_def endswith_def Let_def)

text \<open>
  Claim C2, amended.  With a fallback set that is not empty (and the expected hash
  retrieved, when it is checked), the fetch first requests the path on the primary base
  URL.  A text returned there is the result, and nothing else is requested.  On a
  connection or download error it requests the path once more, on one mirror drawn from
  the fallback set, and on no other; a text returned there is the result.  If that
  request fails too, its exception is the one raised, connection error or download error
  as it was.  An exception of another kind from the primary host is raised at once.
\<close>

theorem fetch_http_primary_then_one_fallback:
  assumes "fallbacks \<noteq> []"
    and "(if is_check_hash then map_sum id Some (get_hash rest_of_url) else Inr None) = Inr h"
  shows "fallbacks ! (r mod length fallbacks) \<in> set fallbacks \<and>
     fetch_http getUrl get_hash base fallbacks r rest_of_url is_check_hash =
       (let primary_url = posixpath_join base [rest_of_url];
            fallback_url = posixpath_join (fallbacks ! (r mod length fallbacks)) [rest_of_url]
        in case getUrl primary_url h of
             Inr text \<Rightarrow> ([primary_url], Inr text)
           | Inl e \<Rightarrow>
               if is_download_or_connection e then
                 (case getUrl fallback_url h of
                    Inr text \<Rightarrow> ([primary_url, fallback_url], Inr text)
                  | Inl e' \<Rightarrow> ([primary_url, fallback_url], Inl e'))
               else ([primary_url], Inl e))"
  using assms
  by (auto simp: fetch_http_def random_choice_def Let_def split: sum.splits)

theorem fetch_http_primary_then_one_fallback_witness:
  "fetch_http only_m2_serves no_hash ''https://primary'' [''https://m1'', ''https://m2''] 1 ''p'' False
     = ([''https://primary/p'', ''https://m2/p''], Inr ''text of p'')
   \<and> fetch_http only_m2_serves no_hash ''https://m2'' [''https://m1''] 0 ''p'' False
     = ([''https://m2/p''], Inr ''text of p'')
   \<and> fetch_http only_m2_serves no_hash ''https://primary'' [''https://m1''] 5 ''p'' False
     = ([''https://primary/p'', ''https://m1/p''], Inl (ArchiveConnectionError ''https://m1/p''))"
proof -
  have j: "posixpath_join ''https://primary'' [''p''] = ''https://primary/p''"
    "posixpath_join ''https://m1'' [''p''] = ''https://m1/p''"
    "posixpath_join ''https://m2'' [''p''] = ''https://m2/p''"
    by (simp_all add: posixpath_join_def posixpath_join_step_def startswith_def endswith_def)
  have a: "fetch_http only_m2_serves no_hash ''https://primary'' [''https://m1'', ''https://m2''] 1 ''p'' False
     = ([''https://primary/p'', ''https://m2/p''], Inr ''text of p'')"
    using fetch_http_primary_then_one_fallback [where fallbacks = "[''https://m1'', ''https://m2'']" and r = 1
        and getUrl = only_m2_serves and base = "''https://primary''" and get_hash = no_hash
        and rest_of_url = "''p''" and is_check_hash = False and h = None]
    by (simp add: j only_m2_serves_def Let_def)
  have b: "fetch_http only_m2_serves no_hash ''https://m2'' [''https://m1''] 0 ''p'' False
     = ([''https://m2/p''], Inr ''text of p'')"
    using fetch_http_primary_then_one_fallback [where fallbacks = "[''https://m1'']" and r = 0
        and getUrl = only_m2_serves and base = "''https://m2''" and get_hash = no_hash
        and rest_of_url = "''p''" and is_check_hash = False and h = None]
    by (simp add: j only_m2_serves_def Let_def)
  have c: "fetch_http only_m2_serves no_hash ''https://primary'' [''https://m1''] 5 ''p'' False
     = ([''https://primary/p'', ''https://m1/p''], Inl (ArchiveConnectionError ''https://m1/p''))"
    using fetch_http_primary_then_one_fallback [where fallbacks = "[''https://m1'']" and r = 5
        and getUrl = only_m2_serves and base = "''https://primary''" and get_hash = no_hash
        and rest_of_url = "''p''" and is_check_hash = False and h = None]
    by (simp add: j only_m2_serves_def Let_def)
  show ?thesis using a b c by blast
qed

subsection \<open>Folders, extensions and the discovery of architectures\<close>

text \<open>\<^verbatim>\<open>ArchiveId.to_folder\<close>.  \<^verbatim>\<open>qt_version_no_dots[0]\<close> raises \<^verbatim>\<open>IndexError\<close> on the empty
  string; an extension that is \<^verbatim>\<open>None\<close> or empty adds nothing.\<close>

definition to_folder :: "ArchiveId \<Rightarrow> version \<Rightarrow> string \<Rightarrow> string option \<Rightarrow> exn + string" where
  "to_folder a v qt_version_no_dots extension =
     (if qt_version_no_dots = [] then Inl IndexError
      else
        (let ext = (case extension of None \<Rightarrow> []
                    | Some e \<Rightarrow> if e = [] then [] else ''_'' @ e);
             stem = category a @ [hd qt_version_no_dots] @ ''_'' @ qt_version_no_dots
         in if v \<ge> Version 6 8 0 None then Inr (stem @ ''/'' @ stem @ ext)
            else Inr (stem @ ext)))"

text \<open>\<^verbatim>\<open>ArchiveId.all_extensions\<close>.  The two range tests and the list of the extensions
  that Android needs from Qt 6 on belong to \<^verbatim>\<open>QtRepoProperty\<close>, not among the sources:
  they are parameters.\<close>

definition all_extensions ::
  "(string \<Rightarrow> version \<Rightarrow> bool) \<Rightarrow> (version \<Rightarrow> bool) \<Rightarrow> string list \<Rightarrow>
   ArchiveId \<Rightarrow> version \<Rightarrow> string list" where
  "all_extensions is_in_wasm_range is_in_wasm_threaded_range EXTENSIONS_REQUIRED_ANDROID_QT6 a v =
     (if target a = ''desktop'' \<and> is_in_wasm_range (host a) v then [[], ''wasm'']
      else if target a = ''desktop'' \<and> is_in_wasm_threaded_range v
        then [[], ''wasm_singlethread'', ''wasm_multithread'']
      else if target a = ''android'' \<and> v \<ge> Version 6 0 0 None
        then EXTENSIONS_REQUIRED_ANDROID_QT6
      else [[]])"

text \<open>\<^verbatim>\<open>xs[-2:]\<close> unpacked into two names: the last two elements, and \<^verbatim>\<open>ValueError\<close>
  (here \<open>None\<close>) when there are fewer than two.\<close>

definition last_two :: "'a list \<Rightarrow> ('a \<times> 'a) option" where
  "last_two xs = (if length xs < 2 then None else Some (xs ! (length xs - 2), xs ! (length xs - 1)))"

text \<open>The inner loop of \<^verbatim>\<open>fetch_arches\<close> over the names of a manifest: the architectures
  of the names whose version segment is \<open>qt_ver_str\<close>, in order.\<close>

fun arches_of_names :: "string \<Rightarrow> string list \<Rightarrow> exn + string list" where
  "arches_of_names qt_ver_str [] = Inr []"
| "arches_of_names qt_ver_str (name # names) =
     (case last_two (split_chr CHR ''.'' name) of
        None \<Rightarrow> Inl ValueError
      | Some (ver, arch) \<Rightarrow>
          (case arches_of_names qt_ver_str names of
             Inl e \<Rightarrow> Inl e
           | Inr arches \<Rightarrow> Inr (if ver = qt_ver_str then arch # arches else arches)))"

text \<open>The loop of \<^verbatim>\<open>fetch_arches\<close> over the extensions.  \<open>fetch_module_metadata\<close> is the
  method \<^verbatim>\<open>_fetch_module_metadata\<close> as a function of the folder: the names of the
  manifest's modules in order, or the exception raised.  The result is the list of the
  extensions whose failure was logged, and the architectures or the exception raised.\<close>

fun fetch_arches_loop ::
  "(string \<Rightarrow> exn + string list) \<Rightarrow> ArchiveId \<Rightarrow> version \<Rightarrow> string \<Rightarrow> string list \<Rightarrow>
   string list \<times> (exn + string list)" where
  "fetch_arches_loop fetch_module_metadata a v qt_ver_str [] = ([], Inr [])"
| "fetch_arches_loop fetch_module_metadata a v qt_ver_str (extension # extensions) =
     (case to_folder a v qt_ver_str (Some extension) of
        Inl e \<Rightarrow> ([], Inl e)
      | Inr folder \<Rightarrow>
          (case (case fetch_module_metadata folder of
                   Inr modules \<Rightarrow> Inr ([], modules)
                 | Inl (ArchiveDownloadError m) \<Rightarrow>
                     if extension = [] then Inl (ArchiveDownloadError m)
                     else Inr ([extension], [])
                 | Inl e \<Rightarrow> Inl e) of
             Inl e \<Rightarrow> ([], Inl e)
           | Inr (logged, modules) \<Rightarrow>
               (case arches_of_names qt_ver_str modules of
                  Inl e \<Rightarrow> (logged, Inl e)
                | Inr arches \<Rightarrow>
                    (case fetch_arches_loop fetch_module_metadata a v qt_ver_str extensions of
                       (logged', Inl e) \<Rightarrow> (logged @ logged', Inl e)
                     | (logged', Inr arches') \<Rightarrow> (logged @ logged', Inr (arches @ arches'))))))"

text \<open>\<^verbatim>\<open>MetadataFactory.fetch_arches\<close>.\<close>

definition fetch_arches ::
  "(string \<Rightarrow> version \<Rightarrow> bool) \<Rightarrow> (version \<Rightarrow> bool) \<Rightarrow> string list \<Rightarrow>
   (string \<Rightarrow> exn + string list) \<Rightarrow> ArchiveId \<Rightarrow> version \<Rightarrow> string list \<times> (exn + string list)" where
  "fetch_arches is_in_wasm_range is_in_wasm_threaded_range EXTENSIONS_REQUIRED_ANDROID_QT6
       fetch_module_metadata a v =
     fetch_arches_loop fetch_module_metadata a v (get_qt_version_str a v)
       (all_extensions is_in_wasm_range is_in_wasm_threaded_range EXTENSIONS_REQUIRED_ANDROID_QT6 a v)"

text \<open>A repository for Qt 6.2.0 on a Linux desktop: the folder without extension has a
  manifest, the folder of the extension \<^verbatim>\<open>wasm\<close> cannot be reached (connection error).\<close>

definition wasm_unreachable :: "string \<Rightarrow> exn + string list" where
  "wasm_unreachable folder =
     (if folder = ''qt6_620'' then Inr [''qt.qt6.620.gcc_64'', ''qt.qt6.620.qtcharts.gcc_64'']
      else Inl (ArchiveConnectionError folder))"

text \<open>The same repository with the folder of the extension \<^verbatim>\<open>wasm\<close> missing (download
  error).\<close>

definition wasm_missing :: "string \<Rightarrow> exn + string list" where
  "wasm_missing folder =
     (if folder = ''qt6_620'' then Inr [''qt.qt6.620.gcc_64'', ''qt.qt6.620.qtcharts.gcc_64'']
      else Inl (ArchiveDownloadError folder))"

text \<open>Range tests for that repository: the extension \<^verbatim>\<open>wasm\<close> from 6.2.0 up to, not
  including, 6.5.0, and the threaded extensions from 6.5.0 on.\<close>

definition example_wasm_range :: "string \<Rightarrow> version \<Rightarrow> bool" where
  "example_wasm_range hst v \<longleftrightarrow> Version 6 2 0 None \<le> v \<and> v < Version 6 5 0 None"

definition example_wasm_threaded_range :: "version \<Rightarrow> bool" where
  "example_wasm_threaded_range v \<longleftrightarrow> Version 6 5 0 None \<le> v"

definition linux_desktop :: ArchiveId where
  "linux_desktop = \<lparr>category = ''qt'', host = ''linux'', target = ''desktop'', version = None\<rparr>"

lemma get_qt_version_str_nonempty: "get_qt_version_str a v \<noteq> []"
  by (simp add: get_qt_version_str_def Let_def str_nat_nonempty)

lemma to_folder_Inr:
  "qs \<noteq> [] \<Longrightarrow> to_folder a v qs ext = Inr (projr (to_folder a v qs ext))"
  by (simp add: to_folder_def Let_def)

text \<open>The reading of the claim, for one extension: its folder; whether the fetch of its
  manifest fails softly (a download error on a non-default extension); the exception, if
  any, with which the extension ends the discovery; and the architectures found in its
  manifest.\<close>

definition extension_folder :: "ArchiveId \<Rightarrow> version \<Rightarrow> string \<Rightarrow> string" where
  "extension_folder a v extension =
     projr (to_folder a v (get_qt_version_str a v) (Some extension))"

definition soft_failure ::
  "(string \<Rightarrow> exn + string list) \<Rightarrow> ArchiveId \<Rightarrow> version \<Rightarrow> string \<Rightarrow> bool" where
  "soft_failure fetch a v extension \<longleftrightarrow>
     extension \<noteq> [] \<and>
     (case fetch (extension_folder a v extension) of
        Inl (ArchiveDownloadError m) \<Rightarrow> True
      | _ \<Rightarrow> False)"

definition hard_failure ::
  "(string \<Rightarrow> exn + string list) \<Rightarrow> ArchiveId \<Rightarrow> version \<Rightarrow> string \<Rightarrow> exn option" where
  "hard_failure fetch a v extension =
     (case fetch (extension_folder a v extension) of
        Inl e \<Rightarrow> if soft_failure fetch a v extension then None else Some e
      | Inr names \<Rightarrow>
          (case arches_of_names (get_qt_version_str a v) names of
             Inl e \<Rightarrow> Some e
           | Inr arches \<Rightarrow> None))"

definition arches_found ::
  "(string \<Rightarrow> exn + string list) \<Rightarrow> ArchiveId \<Rightarrow> version \<Rightarrow> string \<Rightarrow> string list" where
  "arches_found fetch a v extension =
     (case fetch (extension_folder a v extension) of
        Inl e \<Rightarrow> []
      | Inr names \<Rightarrow>
          (case arches_of_names (get_qt_version_str a v) names of
             Inl e \<Rightarrow> []
           | Inr arches \<Rightarrow> arches))"

lemma to_folder_extension_folder:
  "to_folder a v (get_qt_version_str a v) (Some extension) = Inr (extension_folder a v extension)"
  unfolding extension_folder_def
  by (rule to_folder_Inr) (rule get_qt_version_str_nonempty)

lemma fetch_arches_loop_step:
  "fetch_arches_loop fetch a v (get_qt_version_str a v) (extension # extensions) =
     (case hard_failure fetch a v extension of
        Some e \<Rightarrow> ([], Inl e)
      | None \<Rightarrow>
          (case fetch_arches_loop fetch a v (get_qt_version_str a v) extensions of
             (logged, r) \<Rightarrow>
               ((if soft_failure fetch a v extension then [extension] else []) @ logged,
                (case r of Inl e \<Rightarrow> Inl e
                 | Inr arches \<Rightarrow> Inr (arches_found fetch a v extension @ arches)))))"
proof (cases "fetch (extension_folder a v extension)")
  case (Inr names)
  then show ?thesis
    by (cases "arches_of_names (get_qt_version_str a v) names")
      (auto simp: to_folder_extension_folder hard_failure_def soft_failure_def arches_found_def
        split: prod.splits sum.splits)
next
  case (Inl e)
  then show ?thesis
    by (cases e)
      (auto simp: to_folder_extension_folder hard_failure_def soft_failure_def arches_found_def
        split: prod.splits sum.splits)
qed

lemma fetch_arches_loop_all:
  assumes "\<forall>y \<in> set exts. hard_failure fetch a v y = None"
  shows "fetch_arches_loop fetch a v (get_qt_version_str a v) exts =
     (filter (soft_failure fetch a v) exts, Inr (concat (map (arches_found fetch a v) exts)))"
  using assms
proof (induction exts)
  case Nil
  show ?case by simp
next
  case (Cons y exts)
  then have ih: "fetch_arches_loop fetch a v (get_qt_version_str a v) exts =
     (filter (soft_failure fetch a v) exts, Inr (concat (map (arches_found fetch a v) exts)))"
    and h: "hard_failure fetch a v y = None"
    by simp_all
  show ?case
    by (simp only: fetch_arches_loop_step h ih) simp
qed

lemma fetch_arches_loop_first_hard_failure:
  assumes "\<forall>y \<in> set pre. hard_failure fetch a v y = None"
    and "hard_failure fetch a v extension = Some e"
  shows "fetch_arches_loop fetch a v (get_qt_version_str a v) (pre @ extension # post) =
     (filter (soft_failure fetch a v) pre, Inl e)"
  using assms(1)
proof (induction pre)
  case Nil
  show ?case by (simp only: append_Nil fetch_arches_loop_step assms(2)) simp
next
  case (Cons y pre)
  then have ih: "fetch_arches_loop fetch a v (get_qt_version_str a v) (pre @ extension # post) =
     (filter (soft_failure fetch a v) pre, Inl e)"
    and h: "hard_failure fetch a v y = None"
    by simp_all
  show ?case
    by (simp only: append_Cons fetch_arches_loop_step h ih) simp
qed


text \<open>
  Claim C8 as stated fails: a connection error on the folder of the non-default
  extension \<^verbatim>\<open>wasm\<close> is neither logged nor skipped.  It is raised, and the architectures of
  the default extension, whose manifest was fetched, are not returned.
\<close>

theorem fetch_arches_connection_error_raised:
  "fetch_arches example_wasm_range example_wasm_threaded_range [] wasm_unreachable linux_desktop
       (Version 6 2 0 None)
     = ([], Inl (ArchiveConnectionError ''qt6_620_wasm''))
   \<and> all_extensions example_wasm_range example_wasm_threaded_range [] linux_desktop
       (Version 6 2 0 None) = [[], ''wasm'']
   \<and> wasm_unreachable ''qt6_620'' = Inr [''qt.qt6.620.gcc_64'', ''qt.qt6.620.qtcharts.gcc_64'']"
  by code_simp

text \<open>
  Claim C8, amended.  \<^verbatim>\<open>fetch_arches\<close> goes through the applicable extensions in order.
  A download error for a non-default extension is a soft failure: it is logged, the
  extension contributes no architecture, and the discovery goes on.  Every other failure
  is a hard failure, at whatever place the extension stands among the applicable ones:
  any exception for the default extension, an exception of another kind than a download
  error for any extension, and a module name without a dot in a manifest that was
  fetched.  When no extension fails hard, the result is the list of the architectures of
  the extensions that succeeded, in order, and the extensions logged are those that
  failed softly.  Otherwise the exception of the first extension that fails hard is
  raised, whatever succeeded before it, and the extensions logged are those that failed
  softly before it.
\<close>

theorem fetch_arches_download_error_skipped:
  "((\<forall>y \<in> set (all_extensions w t x a v). hard_failure fetch a v y = None) \<longrightarrow>
      fetch_arches w t x fetch a v =
        (filter (soft_failure fetch a v) (all_extensions w t x a v),
         Inr (concat (map (arches_found fetch a v) (all_extensions w t x a v)))))
   \<and> (all_extensions w t x a v = pre @ extension # post \<and>
       (\<forall>y \<in> set pre. hard_failure fetch a v y = None) \<and>
       hard_failure fetch a v extension = Some e \<longrightarrow>
      fetch_arches w t x fetch a v = (filter (soft_failure fetch a v) pre, Inl e))
   \<and> (ext \<noteq> [] \<and> fetch (extension_folder a v ext) = Inl (ArchiveDownloadError m) \<longrightarrow>
      soft_failure fetch a v ext \<and> hard_failure fetch a v ext = None \<and>
      arches_found fetch a v ext = [])
   \<and> (fetch (extension_folder a v []) = Inl e' \<longrightarrow> hard_failure fetch a v [] = Some e')
   \<and> (fetch (extension_folder a v ext) = Inl e' \<and> (\<forall>m. e' \<noteq> ArchiveDownloadError m) \<longrightarrow>
      hard_failure fetch a v ext = Some e')
   \<and> (fetch (extension_folder a v ext) = Inr names \<and>
       arches_of_names (get_qt_version_str a v) names = Inl e' \<longrightarrow>
      hard_failure fetch a v ext = Some e')
   \<and> (fetch (extension_folder a v ext) = Inr names \<and>
       arches_of_names (get_qt_version_str a v) names = Inr arches \<longrightarrow>
      \<not> soft_failure fetch a v ext \<and> hard_failure fetch a v ext = None \<and>
      arches_found fetch a v ext = arches)"
proof -
  have c1: "fetch_arches w t x fetch a v =
        (filter (soft_failure fetch a v) (all_extensions w t x a v),
         Inr (concat (map (arches_found fetch a v) (all_extensions w t x a v))))"
    if "\<forall>y \<in> set (all_extensions w t x a v). hard_failure fetch a v y = None"
    unfolding fetch_arches_def using that by (rule fetch_arches_loop_all)
  have c2: "fetch_arches w t x fetch a v = (filter (soft_failure fetch a v) pre, Inl e)"
    if "all_extensions w t x a v = pre @ extension # post \<and>
       (\<forall>y \<in> set pre. hard_failure fetch a v y = None) \<and>
       hard_failure fetch a v extension = Some e"
  proof -
    from that have p: "all_extensions w t x a v = pre @ extension # post"
      and q: "\<forall>y \<in> set pre. hard_failure fetch a v y = None"
      and r: "hard_failure fetch a v extension = Some e"
      by blast+
    show ?thesis
      unfolding fetch_arches_def p using q r by (rule fetch_arches_loop_first_hard_failure)
  qed
  have c3: "soft_failure fetch a v ext \<and> hard_failure fetch a v ext = None \<and>
      arches_found fetch a v ext = []"
    if "ext \<noteq> [] \<and> fetch (extension_folder a v ext) = Inl (ArchiveDownloadError m)"
    using that by (simp add: soft_failure_def hard_failure_def arches_found_def)
  have c4: "hard_failure fetch a v [] = Some e'"
    if "fetch (extension_folder a v []) = Inl e'"
    using that by (simp add: soft_failure_def hard_failure_def)
  have c5: "hard_failure fetch a v ext = Some e'"
    if "fetch (extension_folder a v ext) = Inl e' \<and> (\<forall>m. e' \<noteq> ArchiveDownloadError m)"
    using that by (cases e') (simp_all add: soft_failure_def hard_failure_def)
  have c6: "hard_failure fetch a v ext = Some e'"
    if "fetch (extension_folder a v ext) = Inr names \<and>
       arches_of_names (get_qt_version_str a v) names = Inl e'"
    using that by (simp add: hard_failure_def)
  have c7: "\<not> soft_failure fetch a v ext \<and> hard_failure fetch a v ext = None \<and>
      arches_found fetch a v ext = arches"
    if "fetch (extension_folder a v ext) = Inr names \<and>
       arches_of_names (get_qt_version_str a v) names = Inr arches"
    using that by (simp add: soft_failure_def hard_failure_def arches_found_def)
  show ?thesis
    using c1 c2 c3 c4 c5 c6 c7 by blast
qed

theorem fetch_arches_download_error_skipped_witness:
  "fetch_arches example_wasm_range example_wasm_threaded_range [] wasm_missing linux_desktop
       (Version 6 2 0 None) = ([''wasm''], Inr [''gcc_64''])
   \<and> fetch_arches example_wasm_range example_wasm_threaded_range [] wasm_unreachable linux_desktop
       (Version 6 2 0 None) = ([], Inl (ArchiveConnectionError ''qt6_620_wasm''))
   \<and> fetch_arches example_wasm_range example_wasm_threaded_range [] wasm_missing linux_desktop
       (Version 6 3 0 None) = ([], Inl (ArchiveDownloadError ''qt6_630''))
   \<and> soft_failure wasm_missing linux_desktop (Version 6 2 0 None) ''wasm''
   \<and> hard_failure wasm_unreachable linux_desktop (Version 6 2 0 None) ''wasm''
       = Some (ArchiveConnectionError ''qt6_620_wasm'')
   \<and> hard_failure wasm_missing linux_desktop (Version 6 3 0 None) []
       = Some (ArchiveDownloadError ''qt6_630'')
   \<and> arches_found wasm_missing linux_desktop (Version 6 2 0 None) [] = [''gcc_64'']"
proof -
  let ?v = "Version 6 2 0 None"
  let ?w = "Version 6 3 0 None"
  let ?ae = "all_extensions example_wasm_range example_wasm_threaded_range [] linux_desktop"
  have ex: "?ae ?v = [[], ''wasm'']" by code_simp
  have ex2: "?ae ?v = [[]] @ ''wasm'' # []" by code_simp
  have ex3: "?ae ?w = [] @ [] # [''wasm'']" by code_simp
  have f0: "wasm_missing (extension_folder linux_desktop ?v [])
      = Inr [''qt.qt6.620.gcc_64'', ''qt.qt6.620.qtcharts.gcc_64'']"
    by code_simp
  have f1: "wasm_missing (extension_folder linux_desktop ?v ''wasm'')
      = Inl (ArchiveDownloadError ''qt6_620_wasm'')"
    by code_simp
  have f2: "wasm_unreachable (extension_folder linux_desktop ?v ''wasm'')
      = Inl (ArchiveConnectionError ''qt6_620_wasm'')"
    by code_simp
  have f3: "wasm_missing (extension_folder linux_desktop ?w [])
      = Inl (ArchiveDownloadError ''qt6_630'')"
    by code_simp
  have f4: "wasm_unreachable (extension_folder linux_desktop ?v [])
      = Inr [''qt.qt6.620.gcc_64'', ''qt.qt6.620.qtcharts.gcc_64'']"
    by code_simp
  have ar: "arches_of_names (get_qt_version_str linux_desktop ?v)
      [''qt.qt6.620.gcc_64'', ''qt.qt6.620.qtcharts.gcc_64''] = Inr [''gcc_64'']"
    by code_simp
  have w: "''wasm'' \<noteq> []" by simp
  have nd: "\<forall>m. ArchiveConnectionError ''qt6_620_wasm'' \<noteq> ArchiveDownloadError m" by simp
  note th = fetch_arches_download_error_skipped
  have s1: "soft_failure wasm_missing linux_desktop ?v ''wasm'' \<and>
      hard_failure wasm_missing linux_desktop ?v ''wasm'' = None \<and>
      arches_found wasm_missing linux_desktop ?v ''wasm'' = []"
    using th [of _ _ _ linux_desktop ?v wasm_missing _ _ _ _ "''wasm''" "''qt6_620_wasm''"] w f1
    by blast
  have s0: "\<not> soft_failure wasm_missing linux_desktop ?v [] \<and>
      hard_failure wasm_missing linux_desktop ?v [] = None \<and>
      arches_found wasm_missing linux_desktop ?v [] = [''gcc_64'']"
    using th [of _ _ _ linux_desktop ?v wasm_missing _ _ _ _ "[]" _ _
        "[''qt.qt6.620.gcc_64'', ''qt.qt6.620.qtcharts.gcc_64'']" "[''gcc_64'']"] f0 ar
    by blast
  have u0: "\<not> soft_failure wasm_unreachable linux_desktop ?v [] \<and>
      hard_failure wasm_unreachable linux_desktop ?v [] = None \<and>
      arches_found wasm_unreachable linux_desktop ?v [] = [''gcc_64'']"
    using th [of _ _ _ linux_desktop ?v wasm_unreachable _ _ _ _ "[]" _ _
        "[''qt.qt6.620.gcc_64'', ''qt.qt6.620.qtcharts.gcc_64'']" "[''gcc_64'']"] f4 ar
    by blast
  have u1: "hard_failure wasm_unreachable linux_desktop ?v ''wasm''
      = Some (ArchiveConnectionError ''qt6_620_wasm'')"
    using th [of _ _ _ linux_desktop ?v wasm_unreachable _ _ _ _ "''wasm''" _
        "ArchiveConnectionError ''qt6_620_wasm''"] f2 nd
    by blast
  have d0: "hard_failure wasm_missing linux_desktop ?w [] = Some (ArchiveDownloadError ''qt6_630'')"
    using th [of _ _ _ linux_desktop ?w wasm_missing _ _ _ _ _ _
        "ArchiveDownloadError ''qt6_630''"] f3
    by blast
  have all: "\<forall>y \<in> set (?ae ?v). hard_failure wasm_missing linux_desktop ?v y = None"
    using s0 s1 by (simp add: ex)
  have "fetch_arches example_wasm_range example_wasm_threaded_range [] wasm_missing linux_desktop ?v
      = (filter (soft_failure wasm_missing linux_desktop ?v) (?ae ?v),
         Inr (concat (map (arches_found wasm_missing linux_desktop ?v) (?ae ?v))))"
    using th [of example_wasm_range example_wasm_threaded_range "[]" linux_desktop ?v wasm_missing]
      all by blast
  also have "\<dots> = ([''wasm''], Inr [''gcc_64''])"
    using s0 s1 by (simp add: ex)
  finally have a: "fetch_arches example_wasm_range example_wasm_threaded_range [] wasm_missing
      linux_desktop ?v = ([''wasm''], Inr [''gcc_64''])" .
  have pre: "\<forall>y \<in> set [[]]. hard_failure wasm_unreachable linux_desktop ?v y = None"
    using u0 by simp
  have "fetch_arches example_wasm_range example_wasm_threaded_range [] wasm_unreachable linux_desktop ?v
      = (filter (soft_failure wasm_unreachable linux_desktop ?v) [[]],
         Inl (ArchiveConnectionError ''qt6_620_wasm''))"
    using th [of example_wasm_range example_wasm_threaded_range "[]" linux_desktop ?v
        wasm_unreachable "[[]]" "''wasm''" "[]" "ArchiveConnectionError ''qt6_620_wasm''"]
      ex2 pre u1 by blast
  also have "\<dots> = ([], Inl (ArchiveConnectionError ''qt6_620_wasm''))"
    using u0 by simp
  finally have b: "fetch_arches example_wasm_range example_wasm_threaded_range [] wasm_unreachable
      linux_desktop ?v = ([], Inl (ArchiveConnectionError ''qt6_620_wasm''))" .
  have pre0: "\<forall>y \<in> set []. hard_failure wasm_missing linux_desktop ?w y = None" by simp
  have "fetch_arches example_wasm_range example_wasm_threaded_range [] wasm_missing linux_desktop ?w
      = (filter (soft_failure wasm_missing linux_desktop ?w) [],
         Inl (ArchiveDownloadError ''qt6_630''))"
    using th [of example_wasm_range example_wasm_threaded_range "[]" linux_desktop ?w
        wasm_missing "[]" "[]" "[''wasm'']" "ArchiveDownloadError ''qt6_630''"]
      ex3 pre0 d0 by blast
  then have c: "fetch_arches example_wasm_range example_wasm_threaded_range [] wasm_missing
      linux_desktop ?w = ([], Inl (ArchiveDownloadError ''qt6_630''))"
    by simp
  show ?thesis using a b c s0 s1 u1 d0 by blast
qed

subsection \<open>Lists of versions: \<^verbatim>\<open>Versions\<close> and \<^verbatim>\<open>fetch_versions\<close>\<close>




text \<open>\<^verbatim>\<open>Versions.__bool__\<close> looks at the first group.\<close>

definition Versions_bool :: "version list list \<Rightarrow> bool" where
  "Versions_bool vs \<longleftrightarrow> length vs > 0 \<and> length (vs ! 0) > 0"

text \<open>\<^verbatim>\<open>Versions.latest\<close>: \<^verbatim>\<open>self.versions[-1][-1]\<close> raises \<^verbatim>\<open>IndexError\<close> when the last
  group is empty.\<close>

definition latest :: "version list list \<Rightarrow> exn + version option" where
  "latest vs =
     (if \<not> Versions_bool vs then Inr None
      else if last vs = [] then Inl IndexError
      else Inr (Some (last (last vs))))"

























subsection \<open>Choosing a tool: \<^verbatim>\<open>choose_highest_version_in_spec\<close>\<close>

text \<open>The items of \<^verbatim>\<open>all_tools_data\<close> in the order of the dictionary: the name of a tool
  variant and its attributes.  \<open>permissive\<close> is \<^verbatim>\<open>Version.permissive\<close> of \<^verbatim>\<open>aqt.repository\<close>,
  a parameter (\<open>None\<close> is its \<^verbatim>\<open>ValueError\<close>); a missing attribute \<^verbatim>\<open>Version\<close> is a
  \<^verbatim>\<open>KeyError\<close>.  The first item that raises ends the comprehension.\<close>

fun tools_versions ::
  "(string \<Rightarrow> version option) \<Rightarrow> (string \<times> (string \<times> string) list) list \<Rightarrow>
   exn + (string \<times> (string \<times> string) list \<times> version) list" where
  "tools_versions permissive [] = Inr []"
| "tools_versions permissive ((name, tool_data) # items) =
     (case map_of tool_data ''Version'' of
        None \<Rightarrow> Inl KeyError
      | Some s \<Rightarrow>
          (case permissive s of
             None \<Rightarrow> Inl ValueError
           | Some v \<Rightarrow>
               (case tools_versions permissive items of
                  Inl e \<Rightarrow> Inl e
                | Inr tvs \<Rightarrow> Inr ((name, tool_data, v) # tvs))))"

text \<open>\<^verbatim>\<open>max(iterable, key=...)\<close>: the first element whose key no other key exceeds;
  \<open>None\<close> is the \<^verbatim>\<open>ValueError\<close> on an empty sequence.\<close>

fun py_max :: "('a \<Rightarrow> 'k::linorder) \<Rightarrow> 'a list \<Rightarrow> 'a option" where
  "py_max key [] = None"
| "py_max key (x # xs) = Some (foldl (\<lambda>best y. if key best < key y then y else best) x xs)"

text \<open>\<^verbatim>\<open>MetadataFactory.choose_highest_version_in_spec\<close>; the specification is a predicate
  on versions.  Only \<^verbatim>\<open>ValueError\<close> is caught.\<close>

definition choose_highest_version_in_spec ::
  "(string \<Rightarrow> version option) \<Rightarrow> (version \<Rightarrow> bool) \<Rightarrow>
   (string \<times> (string \<times> string) list) list \<Rightarrow> exn + (string \<times> string) list option" where
  "choose_highest_version_in_spec permissive simple_spec all_tools_data =
     (case tools_versions permissive all_tools_data of
        Inl ValueError \<Rightarrow> Inr None
      | Inl e \<Rightarrow> Inl e
      | Inr tvs \<Rightarrow>
          (case py_max (\<lambda>(name, tool_data, v). v)
                  (filter (\<lambda>(name, tool_data, v). simple_spec v) tvs) of
             None \<Rightarrow> Inr None
           | Some (name, tool_data, v) \<Rightarrow> Inr (Some tool_data)))"

text \<open>The parsed version of a candidate's attributes, when it has one.\<close>

definition declared_version :: "(string \<Rightarrow> version option) \<Rightarrow> (string \<times> string) list \<Rightarrow> version option" where
  "declared_version permissive tool_data =
     (case map_of tool_data ''Version'' of None \<Rightarrow> None | Some s \<Rightarrow> permissive s)"

lemma foldl_max_member:
  "foldl (\<lambda>best y. if key best < key y then y else best) b ys \<in> set (b # ys)"
proof (induction ys arbitrary: b)
  case Nil
  show ?case by simp
next
  case (Cons y ys)
  have "foldl (\<lambda>best y. if key best < key y then y else best) (if key b < key y then y else b) ys
      \<in> set ((if key b < key y then y else b) # ys)"
    by (rule Cons.IH)
  then show ?case by (cases "key b < key y") auto
qed

lemma foldl_max_ge:
  fixes key :: "'a \<Rightarrow> 'k::linorder"
  shows "z \<in> set (b # ys) \<Longrightarrow>
     key z \<le> key (foldl (\<lambda>best y. if key best < key y then y else best) b ys)"
proof (induction ys arbitrary: b z)
  case Nil
  then show ?case by simp
next
  case (Cons y ys)
  let ?b' = "if key b < key y then y else b"
  have b': "key b \<le> key ?b'" "key y \<le> key ?b'" by auto
  have step: "foldl (\<lambda>best y. if key best < key y then y else best) b (y # ys)
      = foldl (\<lambda>best y. if key best < key y then y else best) ?b' ys"
    by simp
  have top: "key ?b' \<le> key (foldl (\<lambda>best y. if key best < key y then y else best) ?b' ys)"
    by (rule Cons.IH) simp
  from Cons.prems consider "z = b" | "z = y" | "z \<in> set ys" by auto
  then show ?case
  proof cases
    case 1
    then show ?thesis unfolding step using b'(1) top by (blast intro: order_trans)
  next
    case 2
    then show ?thesis unfolding step using b'(2) top by (blast intro: order_trans)
  next
    case 3
    then have "z \<in> set (?b' # ys)" by simp
    then show ?thesis unfolding step by (rule Cons.IH)
  qed
qed

lemma py_max_None: "py_max key xs = None \<longleftrightarrow> xs = []"
  by (cases xs) simp_all

lemma py_max_Some:
  fixes key :: "'a \<Rightarrow> 'k::linorder"
  assumes "py_max key xs = Some m"
  shows "m \<in> set xs \<and> (\<forall>z \<in> set xs. key z \<le> key m)"
proof (cases xs)
  case Nil
  then show ?thesis using assms by simp
next
  case (Cons x xs')
  then have m: "m = foldl (\<lambda>best y. if key best < key y then y else best) x xs'"
    using assms by simp
  show ?thesis
    unfolding m Cons using foldl_max_member [of key x xs'] foldl_max_ge [of _ x xs' key]
    by blast
qed

lemma tools_versions_fail:
  assumes "\<forall>(n, d) \<in> set items. map_of d ''Version'' \<noteq> None"
    and "\<exists>(n, d) \<in> set items. declared_version permissive d = None"
  shows "tools_versions permissive items = Inl ValueError"
  using assms
proof (induction items)
  case Nil
  then show ?case by simp
next
  case (Cons item items)
  obtain n d where item: "item = (n, d)" by (cases item)
  obtain s where s: "map_of d ''Version'' = Some s" using Cons.prems(1) item by auto
  show ?case
  proof (cases "permissive s")
    case None
    then show ?thesis using item s by simp
  next
    case (Some v)
    then have "declared_version permissive d \<noteq> None" using s by (simp add: declared_version_def)
    then have "\<exists>(n, d) \<in> set items. declared_version permissive d = None"
      using Cons.prems(2) item by auto
    moreover have "\<forall>(n, d) \<in> set items. map_of d ''Version'' \<noteq> None"
      using Cons.prems(1) by simp
    ultimately have "tools_versions permissive items = Inl ValueError" by (rule Cons.IH [rotated])
    then show ?thesis using item s Some by simp
  qed
qed

lemma tools_versions_ok:
  assumes "\<forall>(n, d) \<in> set items. declared_version permissive d \<noteq> None"
  shows "tools_versions permissive items =
     Inr (map (\<lambda>(n, d). (n, d, the (declared_version permissive d))) items)"
  using assms
proof (induction items)
  case Nil
  then show ?case by simp
next
  case (Cons item items)
  obtain n d where item: "item = (n, d)" by (cases item)
  have "declared_version permissive d \<noteq> None" using Cons.prems item by simp
  then obtain s v where s: "map_of d ''Version'' = Some s" and v: "permissive s = Some v"
    by (auto simp: declared_version_def split: option.splits)
  have dv: "the (declared_version permissive d) = v" using s v by (simp add: declared_version_def)
  have "tools_versions permissive items =
     Inr (map (\<lambda>(n, d). (n, d, the (declared_version permissive d))) items)"
    using Cons.prems by (intro Cons.IH) simp
  then show ?case using item s v dv by simp
qed

lemma conforming_member:
  "(n, d, v) \<in> set (filter (\<lambda>(name, tool_data, v). simple_spec v)
      (map (\<lambda>(n, d). (n, d, the (declared_version permissive d))) items)) \<longleftrightarrow>
   (n, d) \<in> set items \<and> v = the (declared_version permissive d) \<and> simple_spec v"
  by (induction items) auto

lemma choose_highest_unparsed:
  assumes "\<forall>(n, d) \<in> set items. map_of d ''Version'' \<noteq> None"
    and "\<exists>(n, d) \<in> set items. declared_version permissive d = None"
  shows "choose_highest_version_in_spec permissive simple_spec items = Inr None"
  using tools_versions_fail [OF assms] by (simp add: choose_highest_version_in_spec_def)

lemma choose_highest_none_conforms:
  assumes "\<forall>(n, d) \<in> set items. declared_version permissive d \<noteq> None"
    and "\<not> (\<exists>(n, d) \<in> set items. simple_spec (the (declared_version permissive d)))"
  shows "choose_highest_version_in_spec permissive simple_spec items = Inr None"
proof -
  have "filter (\<lambda>(name, tool_data, v). simple_spec v)
      (map (\<lambda>(n, d). (n, d, the (declared_version permissive d))) items) = []"
    using assms(2) by (auto simp: filter_empty_conv)
  then show ?thesis
    using tools_versions_ok [OF assms(1)] by (simp add: choose_highest_version_in_spec_def)
qed

lemma choose_highest_some_conforms:
  assumes ok: "\<forall>(n, d) \<in> set items. declared_version permissive d \<noteq> None"
    and ex: "\<exists>(n, d) \<in> set items. simple_spec (the (declared_version permissive d))"
  shows "\<exists>(n, d) \<in> set items.
     choose_highest_version_in_spec permissive simple_spec items = Inr (Some d) \<and>
     simple_spec (the (declared_version permissive d)) \<and>
     (\<forall>(n', d') \<in> set items. simple_spec (the (declared_version permissive d')) \<longrightarrow>
        the (declared_version permissive d') \<le> the (declared_version permissive d))"
proof -
  let ?tvs = "map (\<lambda>(n, d). (n, d, the (declared_version permissive d))) items"
  let ?conf = "filter (\<lambda>(name, tool_data, v). simple_spec v) ?tvs"
  let ?key = "\<lambda>(name :: string, tool_data :: (string \<times> string) list, v :: version). v"
  obtain n0 d0 where "(n0, d0) \<in> set items" "simple_spec (the (declared_version permissive d0))"
    using ex by blast
  then have "(n0, d0, the (declared_version permissive d0)) \<in> set ?conf"
    by (intro iffD2 [OF conforming_member] conjI refl)
  then have "?conf \<noteq> []" by (metis empty_iff empty_set)
  then obtain m where m: "py_max ?key ?conf = Some m"
    using py_max_None [of ?key ?conf] by (cases "py_max ?key ?conf") auto
  obtain n d v where ndv: "m = (n, d, v)" by (cases m)
  note pm = py_max_Some [OF m]
  have mem: "(n, d, v) \<in> set ?conf" using pm ndv by blast
  then have c: "(n, d) \<in> set items \<and> v = the (declared_version permissive d) \<and> simple_spec v"
    by (rule iffD1 [OF conforming_member])
  have nd: "(n, d) \<in> set items" using c by blast
  have v: "v = the (declared_version permissive d)" using c by blast
  have sv: "simple_spec v" using c by blast
  have res: "choose_highest_version_in_spec permissive simple_spec items = Inr (Some d)"
    using tools_versions_ok [OF ok] m ndv by (simp add: choose_highest_version_in_spec_def)
  have top: "the (declared_version permissive d') \<le> v"
    if "(n', d') \<in> set items" "simple_spec (the (declared_version permissive d'))" for n' d'
  proof -
    have "(n', d', the (declared_version permissive d')) \<in> set ?conf"
      using that by (intro iffD2 [OF conforming_member] conjI refl)
    then have "?key (n', d', the (declared_version permissive d')) \<le> ?key m" using pm by blast
    then show ?thesis using ndv by simp
  qed
  show ?thesis
    using nd res sv top unfolding v by blast
qed

text \<open>
  Claim C9.  When every candidate declares a \<^verbatim>\<open>Version\<close> attribute: if the attribute of
  some candidate does not parse, the selection gives nothing, whatever the other
  candidates are; if all parse, the selection gives nothing when no parsed version
  satisfies the specification, and otherwise the attributes of a candidate whose parsed
  version satisfies the specification and is at least the parsed version of every
  candidate that satisfies it.
\<close>

theorem choose_highest_version_in_spec_max:
  "(\<forall>(n, d) \<in> set items. map_of d ''Version'' \<noteq> None) \<Longrightarrow>
   ((\<exists>(n, d) \<in> set items. declared_version permissive d = None) \<longrightarrow>
      choose_highest_version_in_spec permissive simple_spec items = Inr None)
   \<and> ((\<forall>(n, d) \<in> set items. declared_version permissive d \<noteq> None) \<longrightarrow>
        (if \<exists>(n, d) \<in> set items. simple_spec (the (declared_version permissive d))
         then \<exists>(n, d) \<in> set items.
                choose_highest_version_in_spec permissive simple_spec items = Inr (Some d) \<and>
                simple_spec (the (declared_version permissive d)) \<and>
                (\<forall>(n', d') \<in> set items. simple_spec (the (declared_version permissive d')) \<longrightarrow>
                   the (declared_version permissive d') \<le> the (declared_version permissive d))
         else choose_highest_version_in_spec permissive simple_spec items = Inr None))"
proof (intro conjI impI)
  assume "\<forall>(n, d) \<in> set items. map_of d ''Version'' \<noteq> None"
    and "\<exists>(n, d) \<in> set items. declared_version permissive d = None"
  then show "choose_highest_version_in_spec permissive simple_spec items = Inr None"
    by (rule choose_highest_unparsed)
next
  assume ok: "\<forall>(n, d) \<in> set items. declared_version permissive d \<noteq> None"
  show "if \<exists>(n, d) \<in> set items. simple_spec (the (declared_version permissive d))
         then \<exists>(n, d) \<in> set items.
                choose_highest_version_in_spec permissive simple_spec items = Inr (Some d) \<and>
                simple_spec (the (declared_version permissive d)) \<and>
                (\<forall>(n', d') \<in> set items. simple_spec (the (declared_version permissive d')) \<longrightarrow>
                   the (declared_version permissive d') \<le> the (declared_version permissive d))
         else choose_highest_version_in_spec permissive simple_spec items = Inr None"
  proof (cases "\<exists>(n, d) \<in> set items. simple_spec (the (declared_version permissive d))")
    case True
    show ?thesis
      using choose_highest_some_conforms [OF ok True] True by (simp only: if_True)
  next
    case False
    show ?thesis
      using choose_highest_none_conforms [OF ok False] False by (simp only: if_False)
  qed
qed

text \<open>A permissive parser that knows four version strings, and a specification that
  the versions of major number 4 satisfy.\<close>

definition four_known_versions :: "string \<Rightarrow> version option" where
  "four_known_versions s =
     (if s = ''4.0.0'' then Some (Version 4 0 0 None)
      else if s = ''4.2.2'' then Some (Version 4 2 2 None)
      else if s = ''4.2.2-202105261130'' then Some (Version 4 2 2 (Some ''202105261130''))
      else if s = ''5.0.0'' then Some (Version 5 0 0 None)
      else None)"

definition major_is_4 :: "version \<Rightarrow> bool" where
  "major_is_4 v \<longleftrightarrow> major v = 4"

theorem choose_highest_version_in_spec_max_witness:
  "choose_highest_version_in_spec four_known_versions major_is_4
       [(''qt.tools.ifw.40'', [(''Version'', ''4.0.0'')]),
        (''qt.tools.ifw.42'', [(''Version'', ''4.2.2''), (''ReleaseDate'', ''2021-05-26'')]),
        (''qt.tools.ifw.50'', [(''Version'', ''5.0.0'')])]
     = Inr (Some [(''Version'', ''4.2.2''), (''ReleaseDate'', ''2021-05-26'')])
   \<and> choose_highest_version_in_spec four_known_versions major_is_4
       [(''qt.tools.ifw.40'', [(''Version'', ''4.0.0'')]),
        (''qt.tools.ifw.xx'', [(''Version'', ''four'')])]
     = Inr None
   \<and> choose_highest_version_in_spec four_known_versions major_is_4
       [(''qt.tools.ifw.50'', [(''Version'', ''5.0.0'')])]
     = Inr None"
proof -
  let ?a = "[(''Version'', ''4.0.0'')]"
  let ?b = "[(''Version'', ''4.2.2''), (''ReleaseDate'', ''2021-05-26'')]"
  let ?c = "[(''Version'', ''5.0.0'')]"
  let ?x = "[(''Version'', ''four'')]"
  have dv: "declared_version four_known_versions ?a = Some (Version 4 0 0 None)"
    "declared_version four_known_versions ?b = Some (Version 4 2 2 None)"
    "declared_version four_known_versions ?c = Some (Version 5 0 0 None)"
    "declared_version four_known_versions ?x = None"
    by (simp_all add: declared_version_def four_known_versions_def)
  have sp: "major_is_4 (Version 4 0 0 None)" "major_is_4 (Version 4 2 2 None)"
    "\<not> major_is_4 (Version 5 0 0 None)"
    by (simp_all add: major_is_4_def)
  have le: "\<not> Version 4 2 2 None \<le> Version 4 0 0 None"
    by (simp add: less_eq_version_def)
  have ne: "?a \<noteq> ?b" "?c \<noteq> ?b" by simp_all
  have one: "choose_highest_version_in_spec four_known_versions major_is_4
       [(''qt.tools.ifw.40'', ?a), (''qt.tools.ifw.42'', ?b), (''qt.tools.ifw.50'', ?c)]
     = Inr (Some ?b)"
    using choose_highest_version_in_spec_max [of
        "[(''qt.tools.ifw.40'', ?a), (''qt.tools.ifw.42'', ?b), (''qt.tools.ifw.50'', ?c)]"
        four_known_versions major_is_4]
    by (auto simp: dv sp le)
  have two: "choose_highest_version_in_spec four_known_versions major_is_4
       [(''qt.tools.ifw.40'', ?a), (''qt.tools.ifw.xx'', ?x)] = Inr None"
    using choose_highest_version_in_spec_max [of
        "[(''qt.tools.ifw.40'', ?a), (''qt.tools.ifw.xx'', ?x)]" four_known_versions major_is_4]
    by (simp add: dv)
  have three: "choose_highest_version_in_spec four_known_versions major_is_4
       [(''qt.tools.ifw.50'', ?c)] = Inr None"
    using choose_highest_version_in_spec_max [of "[(''qt.tools.ifw.50'', ?c)]"
        four_known_versions major_is_4]
    by (simp add: dv sp)
  show ?thesis using one two three by blast
qed

subsection \<open>Reading a directory listing: \<^verbatim>\<open>iterate_folders\<close>\<close>

text \<open>\<^verbatim>\<open>sep.join(parts)\<close>.\<close>

fun join :: "string \<Rightarrow> string list \<Rightarrow> string" where
  "join sep [] = []"
| "join sep [p] = p"
| "join sep (p # q # ps) = p @ sep @ join sep (q # ps)"

text \<open>One round of the loop of \<^verbatim>\<open>posixpath.normpath\<close> over the components of a path.\<close>

definition normpath_step :: "nat \<Rightarrow> string list \<Rightarrow> string \<Rightarrow> string list" where
  "normpath_step initial_slashes new_comps component =
     (if component = [] \<or> component = ''.'' then new_comps
      else if component \<noteq> ''..'' \<or> (initial_slashes = 0 \<and> new_comps = [])
              \<or> (new_comps \<noteq> [] \<and> last new_comps = ''..'')
        then new_comps @ [component]
      else if new_comps \<noteq> [] then butlast new_comps
      else new_comps)"

text \<open>\<^verbatim>\<open>posixpath.normpath(path)\<close>.\<close>

definition normpath :: "string \<Rightarrow> string" where
  "normpath path =
     (if path = [] then ''.''
      else
        (let initial_slashes =
               (if startswith path ''/'' then
                  (if startswith path ''//'' \<and> \<not> startswith path ''///'' then 2 else 1)
                else 0);
             comps = foldl (normpath_step initial_slashes) [] (split_chr CHR ''/'' path);
             p = replicate initial_slashes CHR ''/'' @ join ''/'' comps
         in if p = [] then ''.'' else p))"

text \<open>The fields of the result of \<^verbatim>\<open>urllib.parse.urlparse\<close> that the function reads.
  The parser itself is a parameter of the model; it gives \<open>None\<close> where \<^verbatim>\<open>urlparse\<close> raises
  \<^verbatim>\<open>ValueError\<close>, as it does on a malformed URL such as \<^verbatim>\<open>//[\<close>.\<close>

record ParseResult =
  scheme :: string
  netloc :: string
  path :: string

text \<open>The local function \<^verbatim>\<open>link_to_folder\<close>; the argument is the \<^verbatim>\<open>href\<close> attribute of
  the link, if it has one, and \<^verbatim>\<open>link.get("href", default="")\<close> is \<open>get_href\<close>.  The
  exception of \<^verbatim>\<open>urlparse\<close> is not caught here.\<close>

definition get_href :: "string option \<Rightarrow> string" where
  "get_href href = (case href of None \<Rightarrow> [] | Some h \<Rightarrow> h)"

definition link_to_folder :: "(string \<Rightarrow> ParseResult option) \<Rightarrow> string option \<Rightarrow> exn + string" where
  "link_to_folder urlparse href =
     (let raw_url = get_href href
      in case urlparse raw_url of
           None \<Rightarrow> Inl ValueError
         | Some url \<Rightarrow>
             if scheme url \<noteq> [] \<or> netloc url \<noteq> [] then Inr []
             else
               (let url_path = normpath (path url)
                in if CHR ''/'' \<in> set url_path \<or> url_path = ''.'' \<or> url_path = ''..'' then Inr []
                   else Inr url_path))"

text \<open>What the body of the loop yields for the folder of a link.\<close>

definition yield_folder :: "string \<Rightarrow> string \<Rightarrow> string list" where
  "yield_folder filter_category folder =
     (if folder = [] then []
      else (if startswith folder filter_category then [folder] else [])
         @ (if filter_category = ''tools'' \<and> folder = ''sdktool'' then [folder] else []))"

text \<open>The loop of the generator over the links: the folders yielded, in order, and the
  exception that ends the loop, if one is raised.  What was yielded before the exception
  has been received by the caller.\<close>

fun iterate_links ::
  "(string \<Rightarrow> ParseResult option) \<Rightarrow> string \<Rightarrow> string option list \<Rightarrow> string list \<times> exn option" where
  "iterate_links urlparse filter_category [] = ([], None)"
| "iterate_links urlparse filter_category (link # links) =
     (case link_to_folder urlparse link of
        Inl e \<Rightarrow> ([], Some e)
      | Inr folder \<Rightarrow>
          (case iterate_links urlparse filter_category links of
             (folders, raised) \<Rightarrow> (yield_folder filter_category folder @ folders, raised)))"

text \<open>\<^verbatim>\<open>MetadataFactory.iterate_folders\<close>.  \<open>anchors\<close> is what the HTML parser finds in the
  page: the \<^verbatim>\<open>href\<close> attributes of the links \<^verbatim>\<open>a\<close> in order, or \<open>None\<close> when parsing
  raises.  The result is the list of the folders that the generator yields and the
  exception that it raises after them, if any: every exception raised inside the \<^verbatim>\<open>try\<close>
  becomes an \<^verbatim>\<open>ArchiveConnectionError\<close>.\<close>

definition iterate_folders ::
  "(string \<Rightarrow> ParseResult option) \<Rightarrow> string option list option \<Rightarrow> string \<Rightarrow> string \<Rightarrow>
   string list \<times> exn option" where
  "iterate_folders urlparse anchors html_url filter_category =
     (case (case anchors of
              None \<Rightarrow> ([], Some AssertionError)
            | Some links \<Rightarrow> iterate_links urlparse filter_category links) of
        (folders, None) \<Rightarrow> (folders, None)
      | (folders, Some e) \<Rightarrow>
          (folders, Some (ArchiveConnectionError
                      (''Failed to retrieve the expected HTML page at '' @ html_url))))"

text \<open>\<^verbatim>\<open>urlparse\<close> on the links of an example page: one absolute link, one malformed link
  that \<^verbatim>\<open>urlparse\<close> refuses (\<^verbatim>\<open>Invalid IPv6 URL\<close>), the others relative paths without query
  or fragment.\<close>

definition example_urlparse :: "string \<Rightarrow> ParseResult option" where
  "example_urlparse raw_url =
     (if raw_url = ''https://evil.example/x''
      then Some \<lparr>scheme = ''https'', netloc = ''evil.example'', path = ''/x''\<rparr>
      else if raw_url = ''//['' then None
      else Some \<lparr>scheme = [], netloc = [], path = raw_url\<rparr>)"

text \<open>What one link contributes to the folders yielded: the folders of its \<^verbatim>\<open>href\<close> when
  \<^verbatim>\<open>urlparse\<close> accepts it.\<close>

definition folders_of_link ::
  "(string \<Rightarrow> ParseResult option) \<Rightarrow> string \<Rightarrow> string option \<Rightarrow> string list" where
  "folders_of_link urlparse filter_category href =
     (case link_to_folder urlparse href of
        Inl e \<Rightarrow> []
      | Inr folder \<Rightarrow> yield_folder filter_category folder)"

lemma sdktool_not_tools: "\<not> startswith ''sdktool'' ''tools''"
  by (simp add: startswith_def)

lemma startswith_empty: "startswith s []"
  by (simp add: startswith_def)

lemma link_to_folder_malformed:
  "urlparse (get_href href) = None \<Longrightarrow> link_to_folder urlparse href = Inl ValueError"
  by (simp add: link_to_folder_def)

lemma link_to_folder_parsed:
  "urlparse (get_href href) = Some url \<Longrightarrow>
   link_to_folder urlparse href =
     Inr (if scheme url \<noteq> [] \<or> netloc url \<noteq> [] \<or> CHR ''/'' \<in> set (normpath (path url))
             \<or> normpath (path url) = ''.'' \<or> normpath (path url) = ''..''
          then [] else normpath (path url))"
  by (simp add: link_to_folder_def Let_def)

lemma yield_folder_value:
  "yield_folder fc folder =
     (if folder \<noteq> [] \<and> (startswith folder fc \<or> fc = ''tools'' \<and> folder = ''sdktool'')
      then [folder] else [])"
  using sdktool_not_tools by (auto simp: yield_folder_def)

lemma folders_of_link_parsed:
  assumes "urlparse (get_href href) = Some url"
  shows "folders_of_link urlparse fc href =
     (if scheme url = [] \<and> netloc url = [] \<and> normpath (path url) \<notin> {[], ''.'', ''..''} \<and>
         CHR ''/'' \<notin> set (normpath (path url)) \<and>
         (startswith (normpath (path url)) fc \<or> fc = ''tools'' \<and> normpath (path url) = ''sdktool'')
      then [normpath (path url)] else [])"
  unfolding folders_of_link_def link_to_folder_parsed [of urlparse href url, OF assms] yield_folder_value
  by auto

lemma iterate_links_all_parsed:
  assumes "\<forall>href \<in> set links. urlparse (get_href href) \<noteq> None"
  shows "iterate_links urlparse fc links = (concat (map (folders_of_link urlparse fc) links), None)"
  using assms
proof (induction links)
  case Nil
  show ?case by simp
next
  case (Cons href links)
  then obtain url where u: "urlparse (get_href href) = Some url" by auto
  have ih: "iterate_links urlparse fc links = (concat (map (folders_of_link urlparse fc) links), None)"
    using Cons by simp
  obtain folder where l: "link_to_folder urlparse href = Inr folder"
    using link_to_folder_parsed [of urlparse href url, OF u] by blast
  have f: "folders_of_link urlparse fc href = yield_folder fc folder"
    by (simp add: folders_of_link_def l)
  show ?case
    by (simp add: ih l f)
qed

lemma iterate_links_first_malformed:
  assumes "\<forall>href \<in> set pre. urlparse (get_href href) \<noteq> None"
    and "urlparse (get_href bad) = None"
  shows "iterate_links urlparse fc (pre @ bad # post) =
     (concat (map (folders_of_link urlparse fc) pre), Some ValueError)"
  using assms(1)
proof (induction pre)
  case Nil
  show ?case by (simp add: link_to_folder_malformed [of urlparse bad, OF assms(2)])
next
  case (Cons href pre)
  then obtain url where u: "urlparse (get_href href) = Some url" by auto
  have ih: "iterate_links urlparse fc (pre @ bad # post) =
     (concat (map (folders_of_link urlparse fc) pre), Some ValueError)"
    using Cons by simp
  obtain folder where l: "link_to_folder urlparse href = Inr folder"
    using link_to_folder_parsed [of urlparse href url, OF u] by blast
  have f: "folders_of_link urlparse fc href = yield_folder fc folder"
    by (simp add: folders_of_link_def l)
  show ?case
    by (simp add: ih l f)
qed


lemma iterate_folders_all_parsed:
  assumes "\<forall>href \<in> set links. urlparse (get_href href) \<noteq> None"
  shows "iterate_folders urlparse (Some links) html_url fc =
     (concat (map (folders_of_link urlparse fc) links), None)"
  by (simp add: iterate_folders_def iterate_links_all_parsed [OF assms])

lemma iterate_folders_first_malformed:
  assumes "\<forall>href \<in> set pre. urlparse (get_href href) \<noteq> None"
    and "urlparse (get_href bad) = None"
  shows "iterate_folders urlparse (Some (pre @ bad # post)) html_url fc =
     (concat (map (folders_of_link urlparse fc) pre),
      Some (ArchiveConnectionError (''Failed to retrieve the expected HTML page at '' @ html_url)))"
  by (simp add: iterate_folders_def iterate_links_first_malformed [OF assms])

lemma folders_of_links_member:
  assumes "\<forall>href \<in> set links. urlparse (get_href href) \<noteq> None"
  shows "x \<in> set (concat (map (folders_of_link urlparse fc) links)) \<longleftrightarrow>
     (\<exists>href \<in> set links. \<exists>url.
        urlparse (get_href href) = Some url \<and> scheme url = [] \<and> netloc url = [] \<and>
        x = normpath (path url) \<and> x \<notin> {[], ''.'', ''..''} \<and> CHR ''/'' \<notin> set x \<and>
        (startswith x fc \<or> fc = ''tools'' \<and> x = ''sdktool''))"
  (is "?L \<longleftrightarrow> ?R")
proof
  assume ?L
  then obtain href where h: "href \<in> set links" and m: "x \<in> set (folders_of_link urlparse fc href)"
    by auto
  from h assms obtain url where u: "urlparse (get_href href) = Some url" by auto
  from m have "scheme url = [] \<and> netloc url = [] \<and>
      x = normpath (path url) \<and> x \<notin> {[], ''.'', ''..''} \<and> CHR ''/'' \<notin> set x \<and>
      (startswith x fc \<or> fc = ''tools'' \<and> x = ''sdktool'')"
    unfolding folders_of_link_parsed [of urlparse href url, OF u]
    by (auto split: if_splits)
  with h u show ?R by blast
next
  assume ?R
  then obtain href url where h: "href \<in> set links"
    and u: "urlparse (get_href href) = Some url"
    and p: "scheme url = []" "netloc url = []" "x = normpath (path url)"
      "x \<notin> {[], ''.'', ''..''}" "CHR ''/'' \<notin> set x"
      "startswith x fc \<or> fc = ''tools'' \<and> x = ''sdktool''"
    by blast
  have "folders_of_link urlparse fc href = [x]"
    unfolding folders_of_link_parsed [of urlparse href url, OF u]
    using p by auto
  then have "x \<in> set (folders_of_link urlparse fc href)" by simp
  with h show ?L by auto
qed

text \<open>
  Claim C6 as stated fails for a page with a malformed link.  On the links \<^verbatim>\<open>qt6_1\<close>,
  \<^verbatim>\<open>//[\<close> and \<^verbatim>\<open>qt6_2\<close> with the prefix filter \<^verbatim>\<open>qt6\<close>, the generator yields \<^verbatim>\<open>qt6_1\<close> and
  then raises a connection error, because \<^verbatim>\<open>urlparse\<close> refuses the second link: the
  single-segment path \<^verbatim>\<open>qt6_2\<close>, which starts with the filter and is yielded when it
  stands alone, is not yielded.
\<close>

theorem iterate_folders_malformed_link:
  "iterate_folders example_urlparse (Some [Some ''qt6_1'', Some ''//['', Some ''qt6_2'']) ''u'' ''qt6''
     = ([''qt6_1''],
        Some (ArchiveConnectionError ''Failed to retrieve the expected HTML page at u''))
   \<and> iterate_folders example_urlparse (Some [Some ''qt6_2'']) ''u'' ''qt6'' = ([''qt6_2''], None)
   \<and> example_urlparse ''qt6_2'' = Some \<lparr>scheme = [], netloc = [], path = ''qt6_2''\<rparr>
   \<and> normpath ''qt6_2'' = ''qt6_2''
   \<and> startswith ''qt6_2'' ''qt6''"
  by code_simp

text \<open>
  Claim C6, amended.  As long as \<^verbatim>\<open>urlparse\<close> accepts the \<^verbatim>\<open>href\<close> of every link, the
  folders yielded are those that the links yield one by one, and no exception is raised.
  A link whose parsed \<^verbatim>\<open>href\<close> has a scheme or a network location yields nothing.  A link
  whose normalized path is empty, \<^verbatim>\<open>.\<close> or \<^verbatim>\<open>..\<close> or contains a slash yields nothing.  Any
  other link yields its normalized path, once, when the path starts with the prefix
  filter (every path starts with the empty filter) or when the filter is \<^verbatim>\<open>tools\<close> and
  the path is \<^verbatim>\<open>sdktool\<close>, and nothing otherwise.  At the first link whose \<^verbatim>\<open>href\<close>
  \<^verbatim>\<open>urlparse\<close> refuses, the generator raises a connection error: the folders of the links
  before it have been yielded, those of the links after it are not.  A page that the HTML
  parser refuses yields nothing and raises the same error.
\<close>

theorem iterate_folders_yields:
  "((\<forall>href \<in> set links. urlparse (get_href href) \<noteq> None) \<longrightarrow>
      iterate_folders urlparse (Some links) html_url fc =
        (concat (map (folders_of_link urlparse fc) links), None))
   \<and> ((\<forall>href \<in> set pre. urlparse (get_href href) \<noteq> None) \<and> urlparse (get_href bad) = None \<longrightarrow>
      iterate_folders urlparse (Some (pre @ bad # post)) html_url fc =
        (concat (map (folders_of_link urlparse fc) pre),
         Some (ArchiveConnectionError (''Failed to retrieve the expected HTML page at '' @ html_url))))
   \<and> iterate_folders urlparse None html_url fc =
        ([], Some (ArchiveConnectionError (''Failed to retrieve the expected HTML page at '' @ html_url)))
   \<and> (urlparse (get_href href) = Some url \<and> (scheme url \<noteq> [] \<or> netloc url \<noteq> []) \<longrightarrow>
        folders_of_link urlparse fc href = [])
   \<and> (urlparse (get_href href) = Some url \<and>
        (normpath (path url) \<in> {[], ''.'', ''..''} \<or> CHR ''/'' \<in> set (normpath (path url))) \<longrightarrow>
        folders_of_link urlparse fc href = [])
   \<and> (urlparse (get_href href) = Some url \<and> scheme url = [] \<and> netloc url = [] \<and>
        normpath (path url) \<notin> {[], ''.'', ''..''} \<and> CHR ''/'' \<notin> set (normpath (path url)) \<longrightarrow>
        folders_of_link urlparse fc href =
          (if startswith (normpath (path url)) fc
              \<or> fc = ''tools'' \<and> normpath (path url) = ''sdktool''
           then [normpath (path url)] else []))
   \<and> startswith x []
   \<and> ((\<forall>href \<in> set links. urlparse (get_href href) \<noteq> None) \<longrightarrow>
        (x \<in> set (fst (iterate_folders urlparse (Some links) html_url fc)) \<longleftrightarrow>
          (\<exists>href \<in> set links. \<exists>url.
             urlparse (get_href href) = Some url \<and> scheme url = [] \<and> netloc url = [] \<and>
             x = normpath (path url) \<and> x \<notin> {[], ''.'', ''..''} \<and> CHR ''/'' \<notin> set x \<and>
             (startswith x fc \<or> fc = ''tools'' \<and> x = ''sdktool''))))"
proof -
  have a: "iterate_folders urlparse (Some links) html_url fc =
        (concat (map (folders_of_link urlparse fc) links), None)"
    if "\<forall>href \<in> set links. urlparse (get_href href) \<noteq> None"
    using that by (rule iterate_folders_all_parsed)
  have b: "iterate_folders urlparse (Some (pre @ bad # post)) html_url fc =
        (concat (map (folders_of_link urlparse fc) pre),
         Some (ArchiveConnectionError (''Failed to retrieve the expected HTML page at '' @ html_url)))"
    if "(\<forall>href \<in> set pre. urlparse (get_href href) \<noteq> None) \<and> urlparse (get_href bad) = None"
  proof -
    from that have p: "\<forall>href \<in> set pre. urlparse (get_href href) \<noteq> None"
      and q: "urlparse (get_href bad) = None" by blast+
    from p q show ?thesis by (rule iterate_folders_first_malformed)
  qed
  have c: "iterate_folders urlparse None html_url fc =
        ([], Some (ArchiveConnectionError (''Failed to retrieve the expected HTML page at '' @ html_url)))"
    by (simp add: iterate_folders_def)
  have d: "folders_of_link urlparse fc href = []"
    if "urlparse (get_href href) = Some url \<and> (scheme url \<noteq> [] \<or> netloc url \<noteq> [])"
  proof -
    from that have u: "urlparse (get_href href) = Some url" by blast
    show ?thesis
      unfolding folders_of_link_parsed [of urlparse href url, OF u] using that by auto
  qed
  have e: "folders_of_link urlparse fc href = []"
    if "urlparse (get_href href) = Some url \<and>
        (normpath (path url) \<in> {[], ''.'', ''..''} \<or> CHR ''/'' \<in> set (normpath (path url)))"
  proof -
    from that have u: "urlparse (get_href href) = Some url" by blast
    show ?thesis
      unfolding folders_of_link_parsed [of urlparse href url, OF u] using that by auto
  qed
  have f: "folders_of_link urlparse fc href =
          (if startswith (normpath (path url)) fc
              \<or> fc = ''tools'' \<and> normpath (path url) = ''sdktool''
           then [normpath (path url)] else [])"
    if "urlparse (get_href href) = Some url \<and> scheme url = [] \<and> netloc url = [] \<and>
        normpath (path url) \<notin> {[], ''.'', ''..''} \<and> CHR ''/'' \<notin> set (normpath (path url))"
  proof -
    from that have u: "urlparse (get_href href) = Some url" by blast
    show ?thesis
      unfolding folders_of_link_parsed [of urlparse href url, OF u] using that by auto
  qed
  have g: "x \<in> set (fst (iterate_folders urlparse (Some links) html_url fc)) \<longleftrightarrow>
          (\<exists>href \<in> set links. \<exists>url.
             urlparse (get_href href) = Some url \<and> scheme url = [] \<and> netloc url = [] \<and>
             x = normpath (path url) \<and> x \<notin> {[], ''.'', ''..''} \<and> CHR ''/'' \<notin> set x \<and>
             (startswith x fc \<or> fc = ''tools'' \<and> x = ''sdktool''))"
    if "\<forall>href \<in> set links. urlparse (get_href href) \<noteq> None"
    unfolding iterate_folders_all_parsed [OF that] fst_conv
    using that by (rule folders_of_links_member)
  show ?thesis
    using a b c d e f g startswith_empty [of x] by blast
qed

theorem iterate_folders_yields_witness:
  "iterate_folders example_urlparse
       (Some [Some ''https://evil.example/x'', Some ''qt6_7_0'', Some ''../'']) ''u'' ''qt6''
     = ([''qt6_7_0''], None)
   \<and> folders_of_link example_urlparse ''tools'' (Some ''sdktool'') = [''sdktool'']
   \<and> iterate_folders example_urlparse
       (Some [Some ''qt6_7_0'', Some ''//['', Some ''qt6_8_0'']) ''u'' ''qt6''
     = ([''qt6_7_0''],
        Some (ArchiveConnectionError ''Failed to retrieve the expected HTML page at u''))
   \<and> ''qt6_7_0'' \<in> set (fst (iterate_folders example_urlparse
       (Some [Some ''https://evil.example/x'', Some ''qt6_7_0'', Some ''../'']) ''u'' ''qt6''))"
proof -
  let ?evil = "Some ''https://evil.example/x''"
  let ?qt = "Some ''qt6_7_0''"
  let ?up = "Some ''../''"
  let ?sdk = "Some ''sdktool''"
  let ?bad = "Some ''//[''"
  let ?links = "[?evil, ?qt, ?up]"
  let ?u1 = "\<lparr>scheme = ''https'', netloc = ''evil.example'', path = ''/x''\<rparr>"
  let ?u2 = "\<lparr>scheme = [], netloc = [], path = ''qt6_7_0''\<rparr>"
  let ?u3 = "\<lparr>scheme = [], netloc = [], path = ''../''\<rparr>"
  let ?u4 = "\<lparr>scheme = [], netloc = [], path = ''sdktool''\<rparr>"
  have p1: "example_urlparse (get_href ?evil) = Some ?u1" by code_simp
  have p2: "example_urlparse (get_href ?qt) = Some ?u2" by code_simp
  have p3: "example_urlparse (get_href ?up) = Some ?u3" by code_simp
  have p4: "example_urlparse (get_href ?sdk) = Some ?u4" by code_simp
  have p5: "example_urlparse (get_href ?bad) = None" by code_simp
  have n2: "normpath ''qt6_7_0'' = ''qt6_7_0''" by code_simp
  have n3: "normpath ''../'' = ''..''" by code_simp
  have n4: "normpath ''sdktool'' = ''sdktool''" by code_simp
  have s2: "startswith ''qt6_7_0'' ''qt6''" by (simp add: startswith_def)
  note th = iterate_folders_yields
  have f1: "folders_of_link example_urlparse ''qt6'' ?evil = []"
    using th [where urlparse = example_urlparse and fc = "''qt6''" and href = ?evil and url = ?u1] p1
    by simp
  have f2: "folders_of_link example_urlparse ''qt6'' ?qt = [''qt6_7_0'']"
    using th [where urlparse = example_urlparse and fc = "''qt6''" and href = ?qt and url = ?u2]
      p2 n2 s2
    by simp
  have f3: "folders_of_link example_urlparse ''qt6'' ?up = []"
    using th [where urlparse = example_urlparse and fc = "''qt6''" and href = ?up and url = ?u3] p3 n3
    by simp
  have f4: "folders_of_link example_urlparse ''tools'' ?sdk = [''sdktool'']"
    using th [where urlparse = example_urlparse and fc = "''tools''" and href = ?sdk and url = ?u4]
      p4 n4
    by simp
  have all: "\<forall>href \<in> set ?links. example_urlparse (get_href href) \<noteq> None"
    using p1 p2 p3 by simp
  have "iterate_folders example_urlparse (Some ?links) ''u'' ''qt6'' =
      (concat (map (folders_of_link example_urlparse ''qt6'') ?links), None)"
    using th [where links = ?links and urlparse = example_urlparse and html_url = "''u''"
          and fc = "''qt6''"] all
    by blast
  also have "\<dots> = ([''qt6_7_0''], None)"
    by (simp add: f1 f2 f3)
  finally have a: "iterate_folders example_urlparse (Some ?links) ''u'' ''qt6'' = ([''qt6_7_0''], None)" .
  have pre: "\<forall>href \<in> set [?qt]. example_urlparse (get_href href) \<noteq> None"
    using p2 by simp
  have "iterate_folders example_urlparse (Some ([?qt] @ ?bad # [Some ''qt6_8_0''])) ''u'' ''qt6'' =
      (concat (map (folders_of_link example_urlparse ''qt6'') [?qt]),
       Some (ArchiveConnectionError (''Failed to retrieve the expected HTML page at '' @ ''u'')))"
    using th [where urlparse = example_urlparse and html_url = "''u''" and fc = "''qt6''"
          and pre = "[?qt]" and bad = ?bad and post = "[Some ''qt6_8_0'']"]
      pre p5 by blast
  then have b: "iterate_folders example_urlparse (Some [?qt, ?bad, Some ''qt6_8_0'']) ''u'' ''qt6'' =
      ([''qt6_7_0''],
       Some (ArchiveConnectionError ''Failed to retrieve the expected HTML page at u''))"
    by (simp add: f2)
  have c: "''qt6_7_0'' \<in> set (fst (iterate_folders example_urlparse (Some ?links) ''u'' ''qt6''))"
    by (simp only: a) simp
  show ?thesis using a f4 b c by blast
qed

end
